theory Spec2Isabelle
  imports Main "HOL-Library.AList"
begin

section \<open>The compute manager of nova: data model\<close>

text \<open>
  A shallow embedding of the instance-lifecycle workflows of
  \<^verbatim>\<open>nova/compute/manager.py\<close>. A method \<^verbatim>\<open>_name\<close> of the manager is the
  constant \<open>p_name\<close> here (an identifier cannot start with an underscore); every other
  name is the source's.

  The manager is sequential code over three kinds of state: the record store behind the
  conductor (\<open>db\<close>), the manager's own dictionary of resource trackers, and the
  collaborators (hypervisor driver, network, volume and image services, scheduler,
  notifier, log). A collaborator call is answered by an oracle of the environment, which
  sees the whole world and says whether the call returns or which exception it raises;
  every call and its answer is appended to \<open>trace\<close>. Other green threads are not
  interleaved: a race is visible to a workflow only as the exception a call raises.
\<close>

datatype vm_state =
    vm_states_ACTIVE | vm_states_BUILDING | vm_states_PAUSED | vm_states_SUSPENDED
  | vm_states_STOPPED | vm_states_RESCUED | vm_states_RESIZED | vm_states_SOFT_DELETED
  | vm_states_DELETED | vm_states_ERROR

datatype task_state =
    task_states_SCHEDULING | task_states_NETWORKING | task_states_BLOCK_DEVICE_MAPPING
  | task_states_SPAWNING | task_states_DELETING | task_states_RESIZE_PREP
  | task_states_RESIZE_MIGRATING | task_states_RESIZE_MIGRATED
  | task_states_OTHER string

datatype power_state =
    power_state_NOSTATE | power_state_RUNNING | power_state_PAUSED | power_state_SHUTDOWN
  | power_state_CRASHED | power_state_SUSPENDED | power_state_OTHER nat

text \<open>The exceptions the workflows tell apart, and one constructor for every other one.\<close>

datatype exc =
    InstanceNotFound
  | UnexpectedTaskStateError "task_state option"
  | InstanceTerminationFailure
  | InstanceExists
  | ImageTooLarge
  | NetworkNotFound
  | DiskNotFound
  | VolumeNotFound
  | NovaException
  | IndexError
  | KeyError
  | TypeError
  | OtherException string

fun is_UnexpectedTaskStateError :: "exc \<Rightarrow> bool" where
  "is_UnexpectedTaskStateError (UnexpectedTaskStateError actual) = True"
| "is_UnexpectedTaskStateError _ = False"

text \<open>
  Python values of the scheduler's dictionaries (\<^verbatim>\<open>request_spec\<close>,
  \<^verbatim>\<open>filter_properties\<close>); a dictionary is an association list. \<open>PTraceback e\<close> is
  \<^verbatim>\<open>traceback.format_exception\<close> of the exception \<open>e\<close>.
\<close>

datatype pyval =
    PNone | PInt int | PStr string | PList "pyval list" | PDict "(string \<times> pyval) list"
  | PTraceback exc

type_synonym pydict = "(string \<times> pyval) list"

fun truthy :: "pyval \<Rightarrow> bool" where
  "truthy PNone = False"
| "truthy (PInt n) = (n \<noteq> 0)"
| "truthy (PStr s) = (s \<noteq> [])"
| "truthy (PList l) = (l \<noteq> [])"
| "truthy (PDict d) = (d \<noteq> [])"
| "truthy (PTraceback e) = True"

record "instance" =
  uuid :: string
  name :: string
  vm_state :: vm_state
  task_state :: "task_state option"
  power_state :: power_state
  host :: string
  node :: string
  image_ref :: "string option"
  root_gb :: int
  access_ip_v4 :: "string option"
  access_ip_v6 :: "string option"
  launched_at :: "nat option"
  terminated_at :: "nat option"
  deleted_at :: "nat option"

text \<open>The keyword arguments of \<^verbatim>\<open>instance_update\<close>, one constructor per column.\<close>

datatype upd =
    Set_vm_state vm_state
  | Set_task_state "task_state option"
  | Set_power_state power_state
  | Set_host string
  | Set_node string
  | Set_access_ip_v4 string
  | Set_access_ip_v6 string
  | Set_launched_at nat
  | Set_terminated_at nat
  | Set_system_metadata

fun apply_upd :: "upd \<Rightarrow> instance \<Rightarrow> instance" where
  "apply_upd (Set_vm_state v) i = i\<lparr>vm_state := v\<rparr>"
| "apply_upd (Set_task_state t) i = i\<lparr>task_state := t\<rparr>"
| "apply_upd (Set_power_state p) i = i\<lparr>power_state := p\<rparr>"
| "apply_upd (Set_host h) i = i\<lparr>host := h\<rparr>"
| "apply_upd (Set_node n) i = i\<lparr>node := n\<rparr>"
| "apply_upd (Set_access_ip_v4 a) i = i\<lparr>access_ip_v4 := Some a\<rparr>"
| "apply_upd (Set_access_ip_v6 a) i = i\<lparr>access_ip_v6 := Some a\<rparr>"
| "apply_upd (Set_launched_at t) i = i\<lparr>launched_at := Some t\<rparr>"
| "apply_upd (Set_terminated_at t) i = i\<lparr>terminated_at := Some t\<rparr>"
| "apply_upd Set_system_metadata i = i"

definition apply_upds :: "upd list \<Rightarrow> instance \<Rightarrow> instance" where
  "apply_upds us i = foldl (\<lambda>j u. apply_upd u j) i us"

record bdm =
  volume_id :: "string option"
  delete_on_termination :: bool

record image =
  image_id :: string
  created_at :: nat

record image_meta =
  image_name :: string
  image_size :: "int option"

record vif =
  network_label :: string
  fixed_ips :: "(int \<times> string) list"

record migration =
  source_compute :: string
  source_node :: string
  dest_compute :: string
  dest_node :: string

text \<open>Every call to a collaborator, with the arguments a claim can depend on.\<close>

datatype call =
    add_instance_fault_from_exc string exc
  | EventReporter_enter string string
  | EventReporter_exit string string
  | notifier_notify exc
  | notify_about_instance_usage string string
  | driver_instance_exists_call string
  | get_image_meta_call string
  | driver_get_available_nodes_call
  | block_device_mapping_get_all_by_instance_call string
  | rt_instance_claim string string
  | rt_claim_abort string string
  | rt_update_usage string string
  | driver_macs_for_instance string
  | network_api_allocate_for_instance string
  | network_api_deallocate_for_instance string
  | network_api_get_instance_nw_info string
  | network_api_setup_networks_on_host string
  | setup_block_device_mapping string
  | driver_spawn string
  | driver_get_info_call string
  | driver_destroy string
  | driver_get_volume_connector string
  | driver_migrate_disk_and_power_off string
  | driver_confirm_migration string
  | volume_api_get string
  | volume_api_terminate_connection string
  | volume_api_detach string
  | volume_api_delete string
  | scheduler_rpcapi_run_instance "pydict option" pydict
  | compute_rpcapi_finish_resize string
  | conductor_compute_stop string
  | conductor_instance_info_cache_delete string
  | conductor_block_device_mapping_destroy string
  | conductor_quota_rollback "string list"
  | conductor_quota_commit "string list"
  | conductor_migration_get
  | conductor_migration_update string
  | conductor_instance_type_get
  | conductor_network_migrate_instance_start string
  | rt_confirm_resize string
  | consoleauth_delete_tokens_for_instance string
  | image_service_detail_call string string
  | image_service_delete string

text \<open>
  An entry of the trace: a collaborator call with its answer (\<open>None\<close>: it returned), a
  log line with its level, its message and the traceback it carries, an update that the
  record store applied to the record of an instance, or the removal of a record.
\<close>

datatype event =
    Ev call "exc option"
  | LOG string string "exc option"
  | Wrote string "upd list"
  | Destroyed string

record world =
  db :: "instance list"
  resource_tracker_dict :: "string list"
  trace :: "event list"

record env =
  self_host :: string
  CONF_reclaim_instance_interval :: int
  CONF_default_access_ip_network_name :: "string option"
  CONF_vnc_enabled :: bool
  CONF_spice_enabled :: bool
  utcnow :: nat
  outcome :: "call \<Rightarrow> world \<Rightarrow> exc option"
  driver_get_available_nodes :: "world \<Rightarrow> exc + string list"
  driver_get_info :: "string \<Rightarrow> world \<Rightarrow> exc + power_state"
  driver_instance_exists :: "string \<Rightarrow> world \<Rightarrow> exc + bool"
  get_image_meta :: "string \<Rightarrow> world \<Rightarrow> exc + image_meta"
  block_device_mapping_get_all_by_instance :: "string \<Rightarrow> world \<Rightarrow> exc + bdm list"
  network_allocate_for_instance :: "string \<Rightarrow> world \<Rightarrow> exc + vif list"
  image_service_detail :: "string \<Rightarrow> string \<Rightarrow> world \<Rightarrow> exc + image list"
  migration_get :: "world \<Rightarrow> exc + migration"

definition new_events :: "world \<Rightarrow> world \<Rightarrow> event list" where
  "new_events s s' = drop (length (trace s)) (trace s')"

section \<open>Control flow: exceptions and state\<close>

text \<open>
  A computation takes the world and returns the value it returns or the exception it
  raises (\<open>Inl\<close>), with the world it leaves.
\<close>

type_synonym 'a M = "world \<Rightarrow> (exc + 'a) \<times> world"

definition ret :: "'a \<Rightarrow> 'a M" where
  "ret x = (\<lambda>s. (Inr x, s))"

definition raise :: "exc \<Rightarrow> 'a M" where
  "raise e = (\<lambda>s. (Inl e, s))"

definition bnd :: "'a M \<Rightarrow> ('a \<Rightarrow> 'b M) \<Rightarrow> 'b M" where
  "bnd m f = (\<lambda>s. case m s of (Inl e, s') \<Rightarrow> (Inl e, s') | (Inr x, s') \<Rightarrow> f x s')"

definition seq :: "'a M \<Rightarrow> 'b M \<Rightarrow> 'b M" where
  "seq m n = bnd m (\<lambda>_. n)"

text \<open>\<^verbatim>\<open>try: m  except Exception as e: h(e)\<close>\<close>

definition try_except :: "'a M \<Rightarrow> (exc \<Rightarrow> 'a M) \<Rightarrow> 'a M" where
  "try_except m h = (\<lambda>s. case m s of (Inl e, s') \<Rightarrow> h e s' | (Inr x, s') \<Rightarrow> (Inr x, s'))"

text \<open>\<^verbatim>\<open>try: m  except Exception as e: h(e)  else: k\<close>: the handlers do not cover \<open>k\<close>.\<close>

definition try_else :: "'a M \<Rightarrow> (exc \<Rightarrow> 'b M) \<Rightarrow> ('a \<Rightarrow> 'b M) \<Rightarrow> 'b M" where
  "try_else m h k = (\<lambda>s. case m s of (Inl e, s') \<Rightarrow> h e s' | (Inr x, s') \<Rightarrow> k x s')"

definition emit :: "event \<Rightarrow> unit M" where
  "emit ev = (\<lambda>s. (Inr (), s\<lparr>trace := trace s @ [ev]\<rparr>))"

text \<open>A collaborator call that returns nothing the workflow reads.\<close>

definition ext :: "env \<Rightarrow> call \<Rightarrow> unit M" where
  "ext E c = (\<lambda>s. case outcome E c s of
                     None \<Rightarrow> (Inr (), s\<lparr>trace := trace s @ [Ev c None]\<rparr>)
                   | Some e \<Rightarrow> (Inl e, s\<lparr>trace := trace s @ [Ev c (Some e)]\<rparr>))"

text \<open>A collaborator call whose result the workflow reads.\<close>

definition ask :: "call \<Rightarrow> (world \<Rightarrow> exc + 'a) \<Rightarrow> 'a M" where
  "ask c q = (\<lambda>s. case q s of
                    Inr x \<Rightarrow> (Inr x, s\<lparr>trace := trace s @ [Ev c None]\<rparr>)
                  | Inl e \<Rightarrow> (Inl e, s\<lparr>trace := trace s @ [Ev c (Some e)]\<rparr>))"

text \<open>
  Modelled from the spec: \<^verbatim>\<open>excutils.save_and_reraise_exception\<close>
  (nova/openstack/common/excutils.py) is not among the sources. Section 7 of the
  specification has the original exception re-raised to the caller after the clean-up of
  the handler: the block runs, then the saved exception is raised again; an exception
  that escapes the block takes its place.
\<close>

definition save_and_reraise_exception :: "exc \<Rightarrow> unit M \<Rightarrow> 'a M" where
  "save_and_reraise_exception e block = bnd block (\<lambda>_. raise e)"

section \<open>The record store\<close>

text \<open>
  Modelled from the spec: the conductor's record store (nova/conductor, nova/db) is not
  among the sources. Section 6: \<^verbatim>\<open>instance_update(uuid, updates,
  expected_task_state=...)\<close> fails with \<^verbatim>\<open>UnexpectedTaskStateError\<close> on a
  precondition mismatch; a record that is gone is \<^verbatim>\<open>InstanceNotFound\<close>. The argument
  \<open>expected\<close> is \<open>None\<close> when the keyword is absent and the list of accepted task
  states otherwise (\<^verbatim>\<open>expected_task_state=None\<close> is \<open>Some [None]\<close>).
\<close>

definition instance_get_by_uuid :: "string \<Rightarrow> instance M" where
  "instance_get_by_uuid u = (\<lambda>s. case find (\<lambda>i. uuid i = u) (db s) of
       None \<Rightarrow> (Inl InstanceNotFound, s)
     | Some i \<Rightarrow> (Inr i, s))"

definition instance_update ::
  "string \<Rightarrow> upd list \<Rightarrow> task_state option list option \<Rightarrow> instance M" where
  "instance_update u us expected = (\<lambda>s. case find (\<lambda>i. uuid i = u) (db s) of
       None \<Rightarrow> (Inl InstanceNotFound, s)
     | Some i \<Rightarrow>
         (case expected of
            None \<Rightarrow> (Inr (apply_upds us i),
                       s\<lparr>db := map (\<lambda>j. if uuid j = u then apply_upds us j else j) (db s),
                         trace := trace s @ [Wrote u us]\<rparr>)
          | Some accepted \<Rightarrow>
              if task_state i \<in> set accepted
              then (Inr (apply_upds us i),
                       s\<lparr>db := map (\<lambda>j. if uuid j = u then apply_upds us j else j) (db s),
                         trace := trace s @ [Wrote u us]\<rparr>)
              else (Inl (UnexpectedTaskStateError (task_state i)), s)))"

definition instance_destroy :: "string \<Rightarrow> unit M" where
  "instance_destroy u = (\<lambda>s. case find (\<lambda>i. uuid i = u) (db s) of
       None \<Rightarrow> (Inl InstanceNotFound, s)
     | Some i \<Rightarrow> (Inr (), s\<lparr>db := filter (\<lambda>j. uuid j \<noteq> u) (db s),
                            trace := trace s @ [Destroyed u]\<rparr>))"

definition instance_get_all_by_host :: "string \<Rightarrow> instance list M" where
  "instance_get_all_by_host h = (\<lambda>s. (Inr (filter (\<lambda>i. host i = h) (db s)), s))"

section \<open>Helpers of the manager\<close>

text \<open>\<^verbatim>\<open>_get_resource_tracker\<close> (lines 350-362).\<close>

definition p_get_resource_tracker :: "env \<Rightarrow> string \<Rightarrow> string M" where
  "p_get_resource_tracker E nodename = (\<lambda>s.
     if nodename \<in> set (resource_tracker_dict s) then (Inr nodename, s)
     else bnd (ask driver_get_available_nodes_call (driver_get_available_nodes E)) (\<lambda>nodes.
            if nodename \<notin> set nodes then raise NovaException
            else (\<lambda>s'. (Inr nodename,
                         s'\<lparr>resource_tracker_dict := nodename # resource_tracker_dict s'\<rparr>))) s)"

text \<open>\<^verbatim>\<open>_instance_update\<close> (lines 364-376).\<close>

definition p_instance_update ::
  "env \<Rightarrow> string \<Rightarrow> upd list \<Rightarrow> task_state option list option \<Rightarrow> instance M" where
  "p_instance_update E instance_uuid us expected =
     bnd (instance_update instance_uuid us expected) (\<lambda>instance_ref.
       if host instance_ref = self_host E
       then bnd (ask driver_get_available_nodes_call (driver_get_available_nodes E)) (\<lambda>nodes.
              if node instance_ref \<in> set nodes
              then bnd (p_get_resource_tracker E (node instance_ref)) (\<lambda>rt.
                     seq (ext E (rt_update_usage rt (uuid instance_ref))) (ret instance_ref))
              else ret instance_ref)
       else ret instance_ref)"

text \<open>\<^verbatim>\<open>_set_instance_error_state\<close> (lines 378-385).\<close>

definition p_set_instance_error_state :: "env \<Rightarrow> string \<Rightarrow> unit M" where
  "p_set_instance_error_state E instance_uuid =
     try_except (seq (p_instance_update E instance_uuid [Set_vm_state vm_states_ERROR] None) (ret ()))
         (\<lambda>e. if e = InstanceNotFound then ret () else raise e)"

text \<open>The decorator \<^verbatim>\<open>wrap_instance_fault\<close> (lines 212-237).\<close>

definition wrap_instance_fault :: "env \<Rightarrow> instance \<Rightarrow> 'a M \<Rightarrow> 'a M" where
  "wrap_instance_fault E instance function =
     try_except function (\<lambda>e.
       if e = InstanceNotFound then raise e
       else save_and_reraise_exception e
              (ext E (add_instance_fault_from_exc (uuid instance) e)))"

section \<open>Backup rotation\<close>

text \<open>
  The loop of \<^verbatim>\<open>_rotate_backups\<close> (lines 1695-1700):
  \<^verbatim>\<open>for i in xrange(excess): image = images.pop(); image_service.delete(...)\<close>.
  \<^verbatim>\<open>pop\<close> takes the last element and raises \<^verbatim>\<open>IndexError\<close> on an empty list.
\<close>

fun rotate_out :: "env \<Rightarrow> nat \<Rightarrow> image list \<Rightarrow> unit M" where
  "rotate_out E 0 images = ret ()"
| "rotate_out E (Suc i) images =
     (if images = [] then raise IndexError
      else seq (ext E (image_service_delete (image_id (last images))))
               (rotate_out E i (butlast images)))"

text \<open>\<^verbatim>\<open>_rotate_backups\<close> (lines 1664-1700), under its decorator.\<close>

definition p_rotate_backups :: "env \<Rightarrow> instance \<Rightarrow> string \<Rightarrow> int \<Rightarrow> unit M" where
  "p_rotate_backups E instance backup_type rotation =
     wrap_instance_fault E instance
       (bnd (ask (image_service_detail_call backup_type (uuid instance))
                 (image_service_detail E backup_type (uuid instance))) (\<lambda>images.
          let num_images = int (length images) in
          if num_images > rotation
          then (let excess = int (length images) - rotation
                in rotate_out E (nat excess) images)
          else ret ()))"

text \<open>The images whose deletion the image service accepted, in the order of the calls.\<close>

fun deleted_images :: "event list \<Rightarrow> string list" where
  "deleted_images [] = []"
| "deleted_images (ev # t) =
     (case ev of Ev (image_service_delete i) None \<Rightarrow> i # deleted_images t
               | _ \<Rightarrow> deleted_images t)"

section \<open>Decorators and small helpers\<close>

text \<open>
  \<^verbatim>\<open>LOG.debug\<close> lines are left out of the model; every other log line is an entry of
  the trace. A log line carries a traceback when it is written by \<^verbatim>\<open>LOG.exception\<close>
  or formats one with \<^verbatim>\<open>traceback.format_exception\<close>.
\<close>

text \<open>
  Modelled from the spec: the exception classes (nova/exception.py) are not among the
  sources. Section 7 groups the not-found races (instance, volume, disk vanished);
  \<^verbatim>\<open>exception.NotFound\<close> is their common base class.
\<close>

definition is_NotFound :: "exc \<Rightarrow> bool" where
  "is_NotFound e = (e \<in> set [InstanceNotFound, NetworkNotFound, DiskNotFound, VolumeNotFound])"

text \<open>
  Modelled from the spec: \<^verbatim>\<open>timeutils.is_older_than\<close> (nova/openstack/common) is not
  among the sources. Section 4.5: an instance is reclaimed when it is older than a
  threshold, that is when more than \<open>seconds\<close> have passed since \<open>before\<close>.
\<close>

definition is_older_than :: "env \<Rightarrow> nat \<Rightarrow> int \<Rightarrow> bool" where
  "is_older_than E before seconds = (int (utcnow E) - int before > seconds)"

text \<open>The decorator \<^verbatim>\<open>reverts_task_state\<close> (lines 187-209). \<open>kwargs_instance\<close> is
  \<^verbatim>\<open>kwargs['instance']\<close>: \<open>None\<close> when the instance was not passed by keyword, and the
  lookup raises \<^verbatim>\<open>KeyError\<close> inside the inner \<^verbatim>\<open>try\<close>.\<close>

definition reverts_task_state :: "env \<Rightarrow> instance option \<Rightarrow> 'a M \<Rightarrow> 'a M" where
  "reverts_task_state E kwargs_instance function =
     try_except function (\<lambda>e.
       if is_UnexpectedTaskStateError e
       then seq (emit (LOG ''exception'' ''Possibly task preempted.'' (Some e))) (raise e)
       else save_and_reraise_exception e
              (try_except
                 (case kwargs_instance of
                    None \<Rightarrow> raise KeyError
                  | Some instance \<Rightarrow>
                      seq (p_instance_update E (uuid instance) [Set_task_state None] None)
                          (ret ()))
                 (\<lambda>_. ret ())))"

text \<open>
  Modelled from the spec: \<^verbatim>\<open>compute_utils.EventReporter\<close> is not among the sources.
  Section 9 names event reporting as one of the wrappers of every workflow method: the
  start of the action is reported, the method runs, and its end is reported on every
  exit; the method's exception propagates. The decorator \<^verbatim>\<open>wrap_instance_event\<close>
  (lines 240-260) discards the value of the method.
\<close>

definition wrap_instance_event :: "env \<Rightarrow> instance \<Rightarrow> string \<Rightarrow> 'a M \<Rightarrow> unit M" where
  "wrap_instance_event E instance func_name function =
     seq (ext E (EventReporter_enter (''compute_'' @ func_name) (uuid instance)))
         (try_else function
            (\<lambda>e. seq (ext E (EventReporter_exit (''compute_'' @ func_name) (uuid instance)))
                      (raise e))
            (\<lambda>_. ext E (EventReporter_exit (''compute_'' @ func_name) (uuid instance))))"

text \<open>
  Modelled from the spec: \<^verbatim>\<open>exception.wrap_exception\<close> (nova/exception.py) is not
  among the sources. Section 7: failures surface to the caller as the typed error that
  was raised; the decorator sends the error to the notifier and raises it again.
\<close>

definition wrap_exception :: "env \<Rightarrow> 'a M \<Rightarrow> 'a M" where
  "wrap_exception E f =
     try_except f (\<lambda>e. save_and_reraise_exception e (ext E (notifier_notify e)))"

text \<open>\<^verbatim>\<open>_notify_about_instance_usage\<close> (lines 1077-1087).\<close>

definition p_notify_about_instance_usage :: "env \<Rightarrow> instance \<Rightarrow> string \<Rightarrow> unit M" where
  "p_notify_about_instance_usage E instance event_suffix =
     ext E (notify_about_instance_usage (uuid instance) event_suffix)"

text \<open>\<^verbatim>\<open>_get_power_state\<close> (lines 587-593).\<close>

definition p_get_power_state :: "env \<Rightarrow> instance \<Rightarrow> power_state M" where
  "p_get_power_state E instance =
     try_except (ask (driver_get_info_call (uuid instance)) (driver_get_info E (uuid instance)))
       (\<lambda>e. if is_NotFound e then ret power_state_NOSTATE else raise e)"

text \<open>\<^verbatim>\<open>_get_instance_nw_info\<close> (lines 651-655); the network information is opaque.\<close>

definition p_get_instance_nw_info :: "env \<Rightarrow> instance \<Rightarrow> unit M" where
  "p_get_instance_nw_info E instance = ext E (network_api_get_instance_nw_info (uuid instance))"

text \<open>\<^verbatim>\<open>_deallocate_network\<close> (lines 1089-1091).\<close>

definition p_deallocate_network :: "env \<Rightarrow> instance \<Rightarrow> unit M" where
  "p_deallocate_network E instance = ext E (network_api_deallocate_for_instance (uuid instance))"

text \<open>\<^verbatim>\<open>bdm['volume_id']\<close> as a condition: neither \<^verbatim>\<open>None\<close> nor empty.\<close>

definition has_volume :: "bdm \<Rightarrow> bool" where
  "has_volume b = (case volume_id b of None \<Rightarrow> False | Some v \<Rightarrow> v \<noteq> [])"

definition volume_of :: "bdm \<Rightarrow> string" where
  "volume_of b = (case volume_id b of None \<Rightarrow> [] | Some v \<Rightarrow> v)"

text \<open>\<^verbatim>\<open>_get_volume_bdms\<close> (lines 1093-1095).\<close>

definition p_get_volume_bdms :: "bdm list \<Rightarrow> bdm list" where
  "p_get_volume_bdms bdms = filter has_volume bdms"

text \<open>\<^verbatim>\<open>_get_instance_volume_bdms\<close> (lines 1098-1101).\<close>

definition p_get_instance_volume_bdms :: "env \<Rightarrow> instance \<Rightarrow> bdm list M" where
  "p_get_instance_volume_bdms E instance =
     bnd (ask (block_device_mapping_get_all_by_instance_call (uuid instance))
              (block_device_mapping_get_all_by_instance E (uuid instance)))
         (\<lambda>bdms. ret (p_get_volume_bdms bdms))"

text \<open>\<^verbatim>\<open>_quota_commit\<close> and \<^verbatim>\<open>_quota_rollback\<close> (lines 2050-2056); no reservations
  (\<^verbatim>\<open>None\<close>) is the empty list.\<close>

definition p_quota_commit :: "env \<Rightarrow> string list \<Rightarrow> unit M" where
  "p_quota_commit E reservations =
     (if reservations \<noteq> [] then ext E (conductor_quota_commit reservations) else ret ())"

definition p_quota_rollback :: "env \<Rightarrow> string list \<Rightarrow> unit M" where
  "p_quota_rollback E reservations =
     (if reservations \<noteq> [] then ext E (conductor_quota_rollback reservations) else ret ())"

text \<open>The context manager \<^verbatim>\<open>_error_out_instance_on_exception\<close> (lines 3777-3787)
  around a block \<open>body\<close>.\<close>

definition p_error_out_instance_on_exception ::
  "env \<Rightarrow> string \<Rightarrow> string list \<Rightarrow> 'a M \<Rightarrow> 'a M" where
  "p_error_out_instance_on_exception E instance_uuid reservations body =
     try_except body (\<lambda>error.
       seq (p_quota_rollback E reservations)
           (save_and_reraise_exception error
              (seq (emit (LOG ''error'' ''Setting instance vm_state to ERROR'' None))
                   (p_set_instance_error_state E instance_uuid))))"

section \<open>Power-state reconciliation\<close>

text \<open>\<^verbatim>\<open>_sync_instance_power_state\<close> (lines 3536-3656).\<close>

definition p_sync_instance_power_state :: "env \<Rightarrow> instance \<Rightarrow> power_state \<Rightarrow> unit M" where
  "p_sync_instance_power_state E db_instance vm_power_state =
     bnd (instance_get_by_uuid (uuid db_instance)) (\<lambda>u.
       if self_host E \<noteq> host u
       then emit (LOG ''info'' ''During the sync_power process the instance has moved'' None)
       else if task_state u \<noteq> None
       then emit (LOG ''info'' ''During sync_power_state the instance has a pending task. Skip.''
                      None)
       else
         seq (if vm_power_state \<noteq> power_state u
              then seq (p_instance_update E (uuid db_instance)
                          [Set_power_state vm_power_state] None) (ret ())
              else ret ())
             (if vm_state u \<in> set [vm_states_BUILDING, vm_states_RESCUED, vm_states_RESIZED,
                                    vm_states_SUSPENDED, vm_states_PAUSED, vm_states_ERROR]
              then ret ()
              else if vm_state u = vm_states_ACTIVE
              then
                (if vm_power_state \<in> set [power_state_SHUTDOWN, power_state_CRASHED]
                 then seq (emit (LOG ''warn'' ''Instance shutdown by itself. Calling the stop API.''
                                     None))
                          (try_except (ext E (conductor_compute_stop (uuid db_instance)))
                             (\<lambda>e. emit (LOG ''exception''
                                          ''error during stop() in sync_power_state.'' (Some e))))
                 else if vm_power_state = power_state_SUSPENDED
                 then seq (emit (LOG ''warn''
                                   ''Instance is suspended unexpectedly. Calling the stop API.''
                                   None))
                          (try_except (ext E (conductor_compute_stop (uuid db_instance)))
                             (\<lambda>e. emit (LOG ''exception''
                                          ''error during stop() in sync_power_state.'' (Some e))))
                 else if vm_power_state = power_state_PAUSED
                 then emit (LOG ''warn'' ''Instance is paused unexpectedly. Ignore.'' None)
                 else if vm_power_state = power_state_NOSTATE
                 then emit (LOG ''warn'' ''Instance is unexpectedly not found. Ignore.'' None)
                 else ret ())
              else if vm_state u = vm_states_STOPPED
              then
                (if vm_power_state \<notin> set [power_state_NOSTATE, power_state_SHUTDOWN,
                                            power_state_CRASHED]
                 then seq (emit (LOG ''warn'' ''Instance is not stopped. Calling the stop API.''
                                     None))
                          (try_except (ext E (conductor_compute_stop (uuid db_instance)))
                             (\<lambda>e. emit (LOG ''exception''
                                          ''error during stop() in sync_power_state.'' (Some e))))
                 else ret ())
              else if vm_state u \<in> set [vm_states_SOFT_DELETED, vm_states_DELETED]
              then
                (if vm_power_state \<notin> set [power_state_NOSTATE, power_state_SHUTDOWN]
                 then emit (LOG ''warn'' ''Instance is not (soft-)deleted.'' None)
                 else ret ())
              else ret ()))"

text \<open>The instances the stop workflow was invoked on, one entry per invocation.\<close>

fun compute_stop_calls :: "event list \<Rightarrow> string list" where
  "compute_stop_calls [] = []"
| "compute_stop_calls (ev # t) =
     (case ev of Ev (conductor_compute_stop u) r \<Rightarrow> u # compute_stop_calls t
               | _ \<Rightarrow> compute_stop_calls t)"

section \<open>The delete workflow\<close>

text \<open>The loop over the volumes in \<^verbatim>\<open>_shutdown_instance\<close> (lines 1192-1207).\<close>

fun shutdown_volumes :: "env \<Rightarrow> instance \<Rightarrow> bdm list \<Rightarrow> unit M" where
  "shutdown_volumes E instance [] = ret ()"
| "shutdown_volumes E instance (bdm # vol_bdms) =
     seq (try_except
            (seq (ext E (volume_api_get (volume_of bdm)))
            (seq (ext E (driver_get_volume_connector (uuid instance)))
            (seq (ext E (volume_api_terminate_connection (volume_of bdm)))
                 (ext E (volume_api_detach (volume_of bdm))))))
            (\<lambda>exc. if exc = DiskNotFound
                    then emit (LOG ''warn'' ''Ignoring DiskNotFound'' None)
                    else if exc = VolumeNotFound
                    then emit (LOG ''warn'' ''Ignoring VolumeNotFound'' None)
                    else raise exc))
         (shutdown_volumes E instance vol_bdms)"

text \<open>\<^verbatim>\<open>_shutdown_instance\<close> (lines 1163-1209). The block device information handed
  to the driver is computed from the mappings without any call.\<close>

definition p_shutdown_instance :: "env \<Rightarrow> instance \<Rightarrow> bdm list \<Rightarrow> unit M" where
  "p_shutdown_instance E instance bdms =
     seq (p_notify_about_instance_usage E instance ''shutdown.start'')
    (seq (try_except (p_get_instance_nw_info E instance)
            (\<lambda>e. if e = NetworkNotFound then ret () else raise e))
    (seq (try_except (p_deallocate_network E instance)
            (\<lambda>e. save_and_reraise_exception e
                    (seq (emit (LOG ''error'' ''Failed to deallocate network for instance.'' None))
                         (p_set_instance_error_state E (uuid instance)))))
    (seq (ext E (driver_destroy (uuid instance)))
    (seq (shutdown_volumes E instance (p_get_volume_bdms bdms))
         (p_notify_about_instance_usage E instance ''shutdown.end'')))))"

text \<open>\<^verbatim>\<open>_cleanup_volumes\<close> (lines 1211-1218).\<close>

fun p_cleanup_volumes :: "env \<Rightarrow> string \<Rightarrow> bdm list \<Rightarrow> unit M" where
  "p_cleanup_volumes E instance_uuid [] = ret ()"
| "p_cleanup_volumes E instance_uuid (bdm # bdms) =
     seq (if has_volume bdm \<and> delete_on_termination bdm
          then seq (ext E (volume_api_get (volume_of bdm)))
                   (ext E (volume_api_delete (volume_of bdm)))
          else ret ())
         (p_cleanup_volumes E instance_uuid bdms)"

text \<open>\<^verbatim>\<open>_delete_instance\<close> (lines 1220-1258); no hook is registered on it.\<close>

definition p_delete_instance :: "env \<Rightarrow> instance \<Rightarrow> bdm list \<Rightarrow> unit M" where
  "p_delete_instance E instance bdms =
     seq (ext E (conductor_instance_info_cache_delete (uuid instance)))
    (seq (p_notify_about_instance_usage E instance ''delete.start'')
    (seq (p_shutdown_instance E instance bdms)
    (seq (try_except (p_cleanup_volumes E (uuid instance) bdms)
            (\<lambda>exc. emit (LOG ''warn'' ''Ignoring volume cleanup failure'' None)))
    (bnd (p_instance_update E (uuid instance)
            [Set_vm_state vm_states_DELETED, Set_task_state None,
             Set_terminated_at (utcnow E)] None) (\<lambda>instance'.
     seq (instance_destroy (uuid instance'))
    (seq (ext E (conductor_block_device_mapping_destroy (uuid instance)))
    (seq (p_notify_about_instance_usage E instance' ''delete.end'')
         (if CONF_vnc_enabled E \<or> CONF_spice_enabled E
          then ext E (consoleauth_delete_tokens_for_instance (uuid instance'))
          else ret ()))))))))"

text \<open>\<^verbatim>\<open>terminate_instance\<close> (lines 1260-1287), with its decorators; \<open>bdms\<close> is
  \<open>None\<close> when the caller passes none.\<close>

definition terminate_instance :: "env \<Rightarrow> instance \<Rightarrow> bdm list option \<Rightarrow> unit M" where
  "terminate_instance E instance bdms =
     wrap_exception E
       (wrap_instance_event E instance ''terminate_instance''
          (wrap_instance_fault E instance
             (bnd (case bdms of
                     None \<Rightarrow> p_get_instance_volume_bdms E instance
                   | Some bs \<Rightarrow> if bs = [] then p_get_instance_volume_bdms E instance
                               else ret bs) (\<lambda>bdms.
                try_except (p_delete_instance E instance bdms)
                  (\<lambda>error.
                     if error = InstanceTerminationFailure
                     then seq (emit (LOG ''error'' ''Setting instance vm_state to ERROR'' None))
                              (p_set_instance_error_state E (uuid instance))
                     else if error = InstanceNotFound
                     then emit (LOG ''warn'' ''InstanceNotFound'' None)
                     else raise error)))))"

text \<open>The loop of \<^verbatim>\<open>_reclaim_queued_deletes\<close> (lines 3668-3679).\<close>

fun reclaim_each :: "env \<Rightarrow> instance list \<Rightarrow> unit M" where
  "reclaim_each E [] = ret ()"
| "reclaim_each E (instance # instances) =
     (let old_enough = (case deleted_at instance of
                          None \<Rightarrow> True
                        | Some t \<Rightarrow> is_older_than E t (CONF_reclaim_instance_interval E));
          soft_deleted = (vm_state instance = vm_states_SOFT_DELETED)
      in seq (if soft_deleted \<and> old_enough
              then bnd (ask (block_device_mapping_get_all_by_instance_call (uuid instance))
                            (block_device_mapping_get_all_by_instance E (uuid instance)))
                     (\<lambda>bdms. seq (emit (LOG ''info'' ''Reclaiming deleted instance'' None))
                                  (p_delete_instance E instance bdms))
              else ret ())
             (reclaim_each E instances))"

text \<open>\<^verbatim>\<open>_reclaim_queued_deletes\<close> (lines 3658-3679).\<close>

definition p_reclaim_queued_deletes :: "env \<Rightarrow> unit M" where
  "p_reclaim_queued_deletes E =
     (let interval = CONF_reclaim_instance_interval E
      in if interval \<le> 0 then ret ()
         else bnd (instance_get_all_by_host (self_host E)) (reclaim_each E))"

text \<open>The volumes whose deletion was requested, one entry per request.\<close>

fun volume_delete_calls :: "event list \<Rightarrow> string list" where
  "volume_delete_calls [] = []"
| "volume_delete_calls (ev # t) =
     (case ev of Ev (volume_api_delete v) r \<Rightarrow> v # volume_delete_calls t
               | _ \<Rightarrow> volume_delete_calls t)"

section \<open>Resize\<close>

text \<open>\<^verbatim>\<open>_terminate_volume_connections\<close> (lines 2231-2238).\<close>

fun terminate_each_connection :: "env \<Rightarrow> bdm list \<Rightarrow> unit M" where
  "terminate_each_connection E [] = ret ()"
| "terminate_each_connection E (bdm # bdms) =
     seq (ext E (volume_api_get (volume_of bdm)))
    (seq (ext E (volume_api_terminate_connection (volume_of bdm)))
         (terminate_each_connection E bdms))"

definition p_terminate_volume_connections :: "env \<Rightarrow> instance \<Rightarrow> unit M" where
  "p_terminate_volume_connections E instance =
     bnd (p_get_instance_volume_bdms E instance) (\<lambda>bdms.
       if bdms \<noteq> []
       then seq (ext E (driver_get_volume_connector (uuid instance)))
                (terminate_each_connection E bdms)
       else ret ())"

text \<open>The block of \<^verbatim>\<open>resize_instance\<close> under
  \<^verbatim>\<open>_error_out_instance_on_exception\<close> (lines 2184-2229).\<close>

definition resize_instance_block ::
  "env \<Rightarrow> instance \<Rightarrow> migration \<Rightarrow> bool \<Rightarrow> unit M" where
  "resize_instance_block E instance migration instance_type_given =
     seq (if \<not> instance_type_given then ext E conductor_instance_type_get else ret ())
    (seq (p_get_instance_nw_info E instance)
    (seq (ext E (conductor_migration_update ''migrating''))
    (bnd (p_instance_update E (uuid instance)
            [Set_task_state (Some task_states_RESIZE_MIGRATING)]
            (Some [Some task_states_RESIZE_PREP])) (\<lambda>instance.
     seq (p_notify_about_instance_usage E instance ''resize.start'')
    (seq (seq (p_get_instance_volume_bdms E instance) (ret ()))
    (seq (ext E (driver_migrate_disk_and_power_off (uuid instance)))
    (seq (p_terminate_volume_connections E instance)
    (seq (ext E (conductor_network_migrate_instance_start (uuid instance)))
    (seq (ext E (conductor_migration_update ''post-migrating''))
    (bnd (p_instance_update E (uuid instance)
            [Set_host (dest_compute migration), Set_node (dest_node migration),
             Set_task_state (Some task_states_RESIZE_MIGRATED)]
            (Some [Some task_states_RESIZE_MIGRATING])) (\<lambda>instance.
     seq (ext E (compute_rpcapi_finish_resize (uuid instance)))
         (p_notify_about_instance_usage E instance ''resize.end''))))))))))))"

text \<open>\<^verbatim>\<open>resize_instance\<close> (lines 2172-2229), with its decorators; \<open>migration\<close> is
  \<open>None\<close> when the caller passes a migration id instead.\<close>

definition resize_instance ::
  "env \<Rightarrow> instance \<Rightarrow> string list \<Rightarrow> migration option \<Rightarrow> bool \<Rightarrow> unit M" where
  "resize_instance E instance reservations migration instance_type_given =
     wrap_exception E
       (reverts_task_state E (Some instance)
          (wrap_instance_event E instance ''resize_instance''
             (wrap_instance_fault E instance
                (bnd (case migration of
                        None \<Rightarrow> ask conductor_migration_get (migration_get E)
                      | Some m \<Rightarrow> ret m) (\<lambda>migration.
                   p_error_out_instance_on_exception E (uuid instance) reservations
                     (resize_instance_block E instance migration instance_type_given))))))"

text \<open>\<^verbatim>\<open>confirm_resize\<close> (lines 1873-1908), with its decorators.\<close>

definition confirm_resize ::
  "env \<Rightarrow> instance \<Rightarrow> string list \<Rightarrow> migration option \<Rightarrow> unit M" where
  "confirm_resize E instance reservations migration =
     wrap_exception E
       (wrap_instance_event E instance ''confirm_resize''
          (wrap_instance_fault E instance
             (bnd (case migration of
                     None \<Rightarrow> ask conductor_migration_get (migration_get E)
                   | Some m \<Rightarrow> ret m) (\<lambda>migration.
              seq (p_notify_about_instance_usage E instance ''resize.confirm.start'')
                (p_error_out_instance_on_exception E (uuid instance) reservations
                   (seq (seq (p_instance_update E (uuid instance) [Set_system_metadata] None)
                             (ret ()))
                   (seq (ext E (network_api_setup_networks_on_host (uuid instance)))
                   (seq (p_get_instance_nw_info E instance)
                   (seq (ext E (driver_confirm_migration (uuid instance)))
                   (bnd (p_get_resource_tracker E (source_node migration)) (\<lambda>rt.
                    seq (ext E (rt_confirm_resize rt))
                   (seq (p_notify_about_instance_usage E instance ''resize.confirm.end'')
                        (p_quota_commit E reservations)))))))))))))"

section \<open>The build workflow\<close>

text \<open>\<^verbatim>\<open>_log_original_error\<close> (lines 824-828).\<close>

definition p_log_original_error :: "exc \<Rightarrow> string \<Rightarrow> unit M" where
  "p_log_original_error exc_info instance_uuid = emit (LOG ''error'' ''Error: %s'' (Some exc_info))"

text \<open>
  \<^verbatim>\<open>_reschedule\<close> (lines 871-902). \<open>scheduler_method\<close> maps the request
  specification and the filter properties, as they are when the scheduler is called, to the
  call that is made: the tuple \<^verbatim>\<open>method_args\<close> holds the very dictionaries that
  \<^verbatim>\<open>_reschedule\<close> updates in place. The result \<^verbatim>\<open>None\<close> of the early returns is
  \<open>False\<close>. Formatting the attempt number for the log line raises when the retry data
  has no integer \<^verbatim>\<open>num_attempts\<close>.
\<close>

definition p_reschedule ::
  "env \<Rightarrow> pydict option \<Rightarrow> pydict \<Rightarrow> string \<Rightarrow> (pydict option \<Rightarrow> pydict \<Rightarrow> call)
     \<Rightarrow> task_state option \<Rightarrow> exc option \<Rightarrow> bool M" where
  "p_reschedule E request_spec filter_properties instance_uuid scheduler_method task_state'
       exc_info =
     (case map_of filter_properties ''retry'' of
        None \<Rightarrow> ret False
      | Some retry \<Rightarrow>
          if \<not> truthy retry then ret False
          else
            (case request_spec of
               None \<Rightarrow> ret False
             | Some spec \<Rightarrow>
                 if spec = [] then ret False
                 else
                   (case retry of
                      PDict retry_dict \<Rightarrow>
                        (case map_of retry_dict ''num_attempts'' of
                           None \<Rightarrow> raise KeyError
                         | Some (PInt num) \<Rightarrow>
                             seq (p_instance_update E instance_uuid
                                    [Set_task_state task_state'] None)
                                 (let retry_dict' =
                                        (case exc_info of
                                           None \<Rightarrow> retry_dict
                                         | Some e \<Rightarrow>
                                             AList.update ''exc'' (PTraceback e) retry_dict)
                                  in seq (ext E (scheduler_method
                                            (Some (AList.update ''instance_uuids''
                                                     (PList [PStr instance_uuid]) spec))
                                            (AList.update ''retry'' (PDict retry_dict')
                                               filter_properties)))
                                         (ret True))
                         | Some _ \<Rightarrow> raise TypeError)
                    | _ \<Rightarrow> raise TypeError)))"

text \<open>\<^verbatim>\<open>_reschedule_or_reraise\<close> (lines 830-869).\<close>

definition p_reschedule_or_reraise ::
  "env \<Rightarrow> instance \<Rightarrow> exc \<Rightarrow> pydict option \<Rightarrow> pydict \<Rightarrow> unit M" where
  "p_reschedule_or_reraise E instance exc_info request_spec filter_properties =
     seq (ext E (add_instance_fault_from_exc (uuid instance) exc_info))
    (seq (try_except (p_deallocate_network E instance)
            (\<lambda>e. seq (p_log_original_error exc_info (uuid instance)) (raise e)))
    (bnd (try_except
            (p_reschedule E request_spec filter_properties (uuid instance)
               scheduler_rpcapi_run_instance (Some task_states_SCHEDULING) (Some exc_info))
            (\<lambda>e. seq (emit (LOG ''exception'' ''Error trying to reschedule'' (Some e)))
                      (ret False)))
       (\<lambda>rescheduled.
          if rescheduled then p_log_original_error exc_info (uuid instance)
          else raise exc_info)))"

text \<open>\<^verbatim>\<open>_check_instance_exists\<close> (lines 947-950).\<close>

definition p_check_instance_exists :: "env \<Rightarrow> instance \<Rightarrow> unit M" where
  "p_check_instance_exists E instance =
     bnd (ask (driver_instance_exists_call (name instance))
              (driver_instance_exists E (name instance)))
         (\<lambda>exists. if exists then raise InstanceExists else ret ())"

text \<open>\<^verbatim>\<open>_check_image_size\<close> (lines 952-1006); the result \<open>None\<close> is the empty
  dictionary of an instance started from a volume. The root disk size of the instance
  type is the field \<open>root_gb\<close>.\<close>

definition p_check_image_size :: "env \<Rightarrow> instance \<Rightarrow> image_meta option M" where
  "p_check_image_size E instance =
     (case image_ref instance of
        None \<Rightarrow> ret None
      | Some ref \<Rightarrow>
          if ref = [] then ret None
          else
            bnd (ask (get_image_meta_call ref) (get_image_meta E ref)) (\<lambda>image_meta.
              case image_size image_meta of
                None \<Rightarrow> ret (Some image_meta)
              | Some size_bytes \<Rightarrow>
                  if root_gb instance = 0 then ret (Some image_meta)
                  else if size_bytes > root_gb instance * 1024 * 1024 * 1024
                  then seq (emit (LOG ''info'' ''Image size exceeded instance_type allowed size''
                                      None))
                           (raise ImageTooLarge)
                  else ret (Some image_meta)))"

text \<open>\<^verbatim>\<open>_start_building\<close> (lines 1008-1016).\<close>

definition p_start_building :: "env \<Rightarrow> instance \<Rightarrow> unit M" where
  "p_start_building E instance =
     seq (emit (LOG ''audit'' ''Starting instance...'' None))
         (seq (p_instance_update E (uuid instance)
                 [Set_vm_state vm_states_BUILDING, Set_task_state None]
                 (Some [Some task_states_SCHEDULING, None]))
              (ret ()))"

text \<open>\<^verbatim>\<open>_allocate_network\<close> (lines 1018-1042).\<close>

definition p_allocate_network :: "env \<Rightarrow> instance \<Rightarrow> vif list M" where
  "p_allocate_network E instance =
     bnd (p_instance_update E (uuid instance)
            [Set_vm_state vm_states_BUILDING, Set_task_state (Some task_states_NETWORKING)]
            (Some [None])) (\<lambda>instance.
       try_except (ask (network_api_allocate_for_instance (uuid instance))
                       (network_allocate_for_instance E (uuid instance)))
         (\<lambda>e. seq (emit (LOG ''exception'' ''Instance failed network setup'' (Some e)))
                   (raise e)))"

text \<open>\<^verbatim>\<open>_prep_block_device\<close> (lines 1044-1051); \<^verbatim>\<open>_setup_block_device_mapping\<close>
  (lines 663-730), which talks to the volume service and the driver and writes no
  instance record, is one collaborator call.\<close>

definition p_prep_block_device :: "env \<Rightarrow> instance \<Rightarrow> unit M" where
  "p_prep_block_device E instance =
     try_except (ext E (setup_block_device_mapping (uuid instance)))
       (\<lambda>e. seq (emit (LOG ''exception'' ''Instance failed block device setup'' (Some e)))
                 (raise e))"

text \<open>\<^verbatim>\<open>_spawn\<close> (lines 1053-1075).\<close>

definition p_spawn :: "env \<Rightarrow> instance \<Rightarrow> instance M" where
  "p_spawn E instance =
     bnd (p_instance_update E (uuid instance)
            [Set_vm_state vm_states_BUILDING, Set_task_state (Some task_states_SPAWNING)]
            (Some [Some task_states_BLOCK_DEVICE_MAPPING])) (\<lambda>instance.
     seq (try_except (ext E (driver_spawn (uuid instance)))
            (\<lambda>e. seq (emit (LOG ''exception'' ''Instance failed to spawn'' (Some e)))
                      (raise e)))
    (bnd (p_get_power_state E instance) (\<lambda>current_power_state.
       p_instance_update E (uuid instance)
         [Set_power_state current_power_state, Set_vm_state vm_states_ACTIVE,
          Set_task_state None, Set_launched_at (utcnow E)]
         (Some [Some task_states_SPAWNING]))))"

text \<open>\<^verbatim>\<open>_update_access_ip\<close> (lines 921-945): the addresses of the last matching
  fixed ips of version 4 and 6.\<close>

definition access_ip_update_info :: "string \<Rightarrow> vif list \<Rightarrow> upd list" where
  "access_ip_update_info network_name nw_info =
     (let ips = concat (map fixed_ips
                  (filter (\<lambda>vif. network_label vif = network_name) nw_info));
          v4 = map snd (filter (\<lambda>ip. fst ip = 4) ips);
          v6 = map snd (filter (\<lambda>ip. fst ip = 6) ips)
      in (if v4 = [] then [] else [Set_access_ip_v4 (last v4)])
         @ (if v6 = [] then [] else [Set_access_ip_v6 (last v6)]))"

definition p_update_access_ip :: "env \<Rightarrow> instance \<Rightarrow> vif list \<Rightarrow> instance M" where
  "p_update_access_ip E instance nw_info =
     (case CONF_default_access_ip_network_name E of
        None \<Rightarrow> ret instance
      | Some network_name \<Rightarrow>
          if network_name = [] then ret instance
          else
            (let update_info = access_ip_update_info network_name nw_info
             in if update_info \<noteq> []
                then p_instance_update E (uuid instance) update_info None
                else ret instance))"

text \<open>
  \<^verbatim>\<open>_run_instance\<close> (lines 732-822) in its four blocks: the steps before the
  resource claim (lines 746-769), the claimed block (lines 771-788), the handlers of the
  inner \<^verbatim>\<open>try\<close> (lines 789-809) and its \<^verbatim>\<open>else\<close> branch (lines 810-819).
\<close>

definition build_prologue ::
  "env \<Rightarrow> instance \<Rightarrow> string option \<Rightarrow> (image_meta option \<times> string) M" where
  "build_prologue E instance node' =
     seq (p_check_instance_exists E instance)
    (bnd (p_check_image_size E instance) (\<lambda>image_meta.
     bnd (case node' of
            None \<Rightarrow> bnd (ask driver_get_available_nodes_call (driver_get_available_nodes E))
                      (\<lambda>nodes. case nodes of [] \<Rightarrow> raise IndexError | n # _ \<Rightarrow> ret n)
          | Some n \<Rightarrow> ret n) (\<lambda>node.
     seq (p_start_building E instance)
    (seq (p_notify_about_instance_usage E instance ''create.start'')
    (seq (seq (ask (block_device_mapping_get_all_by_instance_call (uuid instance))
                   (block_device_mapping_get_all_by_instance E (uuid instance))) (ret ()))
    (bnd (p_get_resource_tracker E node) (\<lambda>rt. ret (image_meta, rt))))))))"

text \<open>
  Modelled from the spec: the claim of the resource tracker
  (nova/compute/resource_tracker.py, claims.py) is not among the sources. Section 4.1: a
  claim is a scoped acquisition that fails with an error or is held for the block and
  released on every exit; on an exception of the block the claim is reverted and the
  exception propagates.
\<close>

definition with_instance_claim :: "env \<Rightarrow> string \<Rightarrow> instance \<Rightarrow> 'a M \<Rightarrow> 'a M" where
  "with_instance_claim E rt instance block =
     seq (ext E (rt_instance_claim rt (uuid instance)))
         (try_except block
            (\<lambda>e. seq (ext E (rt_claim_abort rt (uuid instance))) (raise e)))"

definition build_claimed :: "env \<Rightarrow> string \<Rightarrow> instance \<Rightarrow> (instance \<times> vif list) M" where
  "build_claimed E rt instance =
     with_instance_claim E rt instance
       (seq (ext E (driver_macs_for_instance (uuid instance)))
       (bnd (p_allocate_network E instance) (\<lambda>network_info.
        seq (seq (p_instance_update E (uuid instance)
                    [Set_vm_state vm_states_BUILDING,
                     Set_task_state (Some task_states_BLOCK_DEVICE_MAPPING)] None) (ret ()))
       (seq (p_prep_block_device E instance)
       (bnd (p_spawn E instance) (\<lambda>instance. ret (instance, network_info)))))))"

definition build_failed ::
  "env \<Rightarrow> instance \<Rightarrow> pydict option \<Rightarrow> pydict \<Rightarrow> exc \<Rightarrow> unit M" where
  "build_failed E instance request_spec filter_properties e =
     (if e = InstanceNotFound
      then seq (try_except (p_deallocate_network E instance)
                  (\<lambda>e'. emit (LOG ''exception''
                                ''Failed to dealloc network for deleted instance'' (Some e'))))
               (raise e)
      else if is_UnexpectedTaskStateError e
      then (if e = UnexpectedTaskStateError (Some task_states_DELETING) then ret ()
            else raise e)
      else p_reschedule_or_reraise E instance e request_spec filter_properties)"

definition falsy_ip :: "string option \<Rightarrow> bool" where
  "falsy_ip a = (case a of None \<Rightarrow> True | Some x \<Rightarrow> x = [])"

definition build_succeeded :: "env \<Rightarrow> bool \<Rightarrow> instance \<times> vif list \<Rightarrow> unit M" where
  "build_succeeded E is_first_time r =
     (case r of (instance, network_info) \<Rightarrow>
        bnd (if is_first_time \<and> falsy_ip (access_ip_v4 instance)
                \<and> falsy_ip (access_ip_v6 instance)
             then p_update_access_ip E instance network_info
             else ret instance) (\<lambda>instance.
          p_notify_about_instance_usage E instance ''create.end''))"

definition p_run_instance ::
  "env \<Rightarrow> pydict option \<Rightarrow> pydict \<Rightarrow> bool \<Rightarrow> string option \<Rightarrow> instance \<Rightarrow> unit M" where
  "p_run_instance E request_spec filter_properties is_first_time node' instance =
     try_except
       (bnd (build_prologue E instance node') (\<lambda>(image_meta, rt).
          try_else (build_claimed E rt instance)
            (build_failed E instance request_spec filter_properties)
            (build_succeeded E is_first_time)))
       (\<lambda>e. save_and_reraise_exception e (p_set_instance_error_state E (uuid instance)))"

text \<open>\<^verbatim>\<open>run_instance\<close> (lines 1139-1161), with its decorators; the injected files
  are taken as decoded.\<close>

definition run_instance ::
  "env \<Rightarrow> instance \<Rightarrow> pydict option \<Rightarrow> pydict option \<Rightarrow> bool \<Rightarrow> string option \<Rightarrow> unit M" where
  "run_instance E instance request_spec filter_properties is_first_time node' =
     wrap_exception E
       (reverts_task_state E (Some instance)
          (wrap_instance_event E instance ''run_instance''
             (wrap_instance_fault E instance
                (p_run_instance E request_spec
                   (case filter_properties of None \<Rightarrow> [] | Some fp \<Rightarrow> fp)
                   is_first_time node' instance))))"

text \<open>The submissions to the scheduler, with the answer to each.\<close>

fun scheduler_calls :: "event list \<Rightarrow> (pydict option \<times> pydict \<times> exc option) list" where
  "scheduler_calls [] = []"
| "scheduler_calls (ev # t) =
     (case ev of Ev (scheduler_rpcapi_run_instance spec fp) r \<Rightarrow> (spec, fp, r) # scheduler_calls t
               | _ \<Rightarrow> scheduler_calls t)"

section \<open>Relations between the world before and after a computation\<close>

text \<open>\<open>steps R m\<close>: whatever \<open>m\<close> returns or raises, \<open>R\<close> relates the world it starts
  in to the world it leaves.\<close>

definition steps :: "(world \<Rightarrow> world \<Rightarrow> bool) \<Rightarrow> 'a M \<Rightarrow> bool" where
  "steps R m = (\<forall>s. R s (snd (m s)))"

text \<open>The trace grows by entries that satisfy \<open>P\<close>.\<close>

definition grows :: "(event \<Rightarrow> bool) \<Rightarrow> world \<Rightarrow> world \<Rightarrow> bool" where
  "grows P s s' = (\<exists>t. trace s' = trace s @ t \<and> (\<forall>e \<in> set t. P e))"

text \<open>No record is added to the store.\<close>

definition no_new_records :: "world \<Rightarrow> world \<Rightarrow> bool" where
  "no_new_records s s' = (uuid ` set (db s') \<subseteq> uuid ` set (db s))"

text \<open>The store holds the same records.\<close>

definition same_db :: "world \<Rightarrow> world \<Rightarrow> bool" where
  "same_db s s' = (db s' = db s)"

text \<open>The part of \<^verbatim>\<open>_instance_update\<close> that follows the answer of the store
  (lines 370-376).\<close>

definition update_usage_of :: "env \<Rightarrow> instance \<Rightarrow> instance M" where
  "update_usage_of E instance_ref =
     (if host instance_ref = self_host E
       then bnd (ask driver_get_available_nodes_call (driver_get_available_nodes E)) (\<lambda>nodes.
              if node instance_ref \<in> set nodes
              then bnd (p_get_resource_tracker E (node instance_ref)) (\<lambda>rt.
                     seq (ext E (rt_update_usage rt (uuid instance_ref))) (ret instance_ref))
              else ret instance_ref)
       else ret instance_ref)"

text \<open>An entry of the trace that is not an invocation of the stop workflow.\<close>

definition not_stop :: "event \<Rightarrow> bool" where
  "not_stop ev = (compute_stop_calls [ev] = [])"

section \<open>Concrete worlds for the witnesses\<close>

text \<open>An environment in which every collaborator returns; the witnesses vary it.\<close>

definition calm :: env where
  "calm = \<lparr>self_host = ''host1'',
           CONF_reclaim_instance_interval = 0,
           CONF_default_access_ip_network_name = None,
           CONF_vnc_enabled = False,
           CONF_spice_enabled = False,
           utcnow = 1000,
           outcome = (\<lambda>c s. None),
           driver_get_available_nodes = (\<lambda>s. Inr [''node1'']),
           driver_get_info = (\<lambda>u s. Inr power_state_RUNNING),
           driver_instance_exists = (\<lambda>n s. Inr False),
           get_image_meta = (\<lambda>r s. Inr \<lparr>image_name = ''img'', image_size = None\<rparr>),
           block_device_mapping_get_all_by_instance = (\<lambda>u s. Inr []),
           network_allocate_for_instance = (\<lambda>u s. Inr []),
           image_service_detail = (\<lambda>b u s. Inr []),
           migration_get = (\<lambda>s. Inr \<lparr>source_compute = ''host1'', source_node = ''node1'',
                                      dest_compute = ''host2'', dest_node = ''node2''\<rparr>)\<rparr>"

definition vm1 :: "instance" where
  "vm1 = \<lparr>uuid = ''u1'', name = ''instance-1'', vm_state = vm_states_ACTIVE,
          task_state = None, power_state = power_state_RUNNING, host = ''host1'',
          node = ''node1'', image_ref = None, root_gb = 0, access_ip_v4 = None,
          access_ip_v6 = None, launched_at = None, terminated_at = None,
          deleted_at = None\<rparr>"

definition world0 :: "instance list \<Rightarrow> world" where
  "world0 is = \<lparr>db = is, resource_tracker_dict = [], trace = []\<rparr>"

text \<open>\<open>tolerant R W D\<close>: \<open>R\<close> is a preorder on worlds that holds across every
  collaborator call, log line and change of the tracker dictionary, across the updates
  that satisfy \<open>W\<close> and across the removals that satisfy \<open>D\<close>.\<close>

definition tolerant ::
  "(world \<Rightarrow> world \<Rightarrow> bool) \<Rightarrow> (string \<Rightarrow> upd list \<Rightarrow> bool) \<Rightarrow> (string \<Rightarrow> bool) \<Rightarrow> bool" where
  "tolerant R W D =
     (reflp R \<and> transp R
      \<and> (\<forall>s c r. R s (s\<lparr>trace := trace s @ [Ev c r]\<rparr>))
      \<and> (\<forall>s l m x. R s (s\<lparr>trace := trace s @ [LOG l m x]\<rparr>))
      \<and> (\<forall>s n. R s (s\<lparr>resource_tracker_dict := n # resource_tracker_dict s\<rparr>))
      \<and> (\<forall>s u us. W u us \<longrightarrow>
            R s (s\<lparr>db := map (\<lambda>j. if uuid j = u then apply_upds us j else j) (db s),
                  trace := trace s @ [Wrote u us]\<rparr>))
      \<and> (\<forall>s u. D u \<longrightarrow>
            R s (s\<lparr>db := filter (\<lambda>j. uuid j \<noteq> u) (db s), trace := trace s @ [Destroyed u]\<rparr>)))"

text \<open>The instances that the sweep selects among those it was given.\<close>

definition reclaimable :: "env \<Rightarrow> instance \<Rightarrow> bool" where
  "reclaimable E i = (vm_state i = vm_states_SOFT_DELETED
                      \<and> (case deleted_at i of None \<Rightarrow> True
                          | Some t \<Rightarrow> is_older_than E t (CONF_reclaim_instance_interval E)))"

text \<open>An update that assigns the task state.\<close>

definition sets_task_state :: "upd list \<Rightarrow> bool" where
  "sets_task_state us = (\<exists>t \<in> set us. case t of Set_task_state x \<Rightarrow> True | _ \<Rightarrow> False)"

text \<open>An entry of the trace that is not an update of the task state, or is the update by
  which \<^verbatim>\<open>_delete_instance\<close> marks the instance deleted.\<close>

definition task_write_of_delete :: "env \<Rightarrow> event \<Rightarrow> bool" where
  "task_write_of_delete E ev =
     (case ev of
        Wrote u us \<Rightarrow> sets_task_state us \<longrightarrow>
           us = [Set_vm_state vm_states_DELETED, Set_task_state None,
                 Set_terminated_at (utcnow E)]
      | _ \<Rightarrow> True)"

text \<open>A failing \<^verbatim>\<open>driver.confirm_migration\<close>, and an instance with a task in flight.\<close>

definition confirm_fails :: env where
  "confirm_fails = calm\<lparr>outcome := (\<lambda>c s. if c = driver_confirm_migration ''u1''
                                          then Some (OtherException ''boom'') else None)\<rparr>"

definition vm_resized :: "instance" where
  "vm_resized = vm1\<lparr>vm_state := vm_states_RESIZED,
                     task_state := Some (task_states_OTHER ''resize_finish'')\<rparr>"

definition migration1 :: migration where
  "migration1 = \<lparr>source_compute = ''host1'', source_node = ''node1'',
                 dest_compute = ''host2'', dest_node = ''node2''\<rparr>"

text \<open>The bookkeeping of \<^verbatim>\<open>_instance_update\<close> returns: the driver answers the query
  for its nodes with the same list every time, and the resource tracker accepts every
  usage update.\<close>

definition bookkeeping_returns :: "env \<Rightarrow> bool" where
  "bookkeeping_returns E =
     ((\<exists>ns. \<forall>w. driver_get_available_nodes E w = Inr ns)
      \<and> (\<forall>n x w. outcome E (rt_update_usage n x) w = None))"

text \<open>A mapping with a volume to delete on termination.\<close>

definition bdm1 :: bdm where
  "bdm1 = \<lparr>volume_id = Some ''v1'', delete_on_termination = True\<rparr>"

text \<open>A failing \<^verbatim>\<open>driver.migrate_disk_and_power_off\<close>, and an instance about to be
  resized.\<close>

definition disk_migration_fails :: env where
  "disk_migration_fails =
     calm\<lparr>outcome := (\<lambda>c s. if c = driver_migrate_disk_and_power_off ''u1''
                             then Some (OtherException ''disk'') else None)\<rparr>"

definition vm_resize_prep :: "instance" where
  "vm_resize_prep = vm1\<lparr>task_state := Some task_states_RESIZE_PREP\<rparr>"

text \<open>The mappings whose volume \<^verbatim>\<open>_cleanup_volumes\<close> deletes.\<close>

definition to_delete :: "bdm list \<Rightarrow> bdm list" where
  "to_delete bdms = filter (\<lambda>b. has_volume b \<and> delete_on_termination b) bdms"

text \<open>The mappings \<^verbatim>\<open>terminate_instance\<close> works on: those of the caller, or the ones
  with a volume among those the store returns (\<open>stored\<close>) when the caller passes none.\<close>

definition effective_bdms :: "bdm list option \<Rightarrow> bdm list \<Rightarrow> bdm list" where
  "effective_bdms bdms stored =
     (case bdms of None \<Rightarrow> p_get_volume_bdms stored
      | Some bs \<Rightarrow> if bs = [] then p_get_volume_bdms stored else bs)"

text \<open>A request with retry data of one attempt, and the original failure.\<close>

definition fp_retry :: pydict where
  "fp_retry = [(''retry'', PDict [(''num_attempts'', PInt 1)])]"

definition spec1 :: pydict where
  "spec1 = [(''image'', PStr ''img'')]"

definition not_scheduler :: "event \<Rightarrow> bool" where
  "not_scheduler ev = (scheduler_calls [ev] = [])"

section \<open>Reading results of composed computations\<close>

lemma bnd_Inr:
  "bnd m f s = (Inr y, s') \<longleftrightarrow> (\<exists>x s1. m s = (Inr x, s1) \<and> f x s1 = (Inr y, s'))"
  by (auto simp: bnd_def split: prod.splits sum.splits)

lemma bnd_Inl:
  "bnd m f s = (Inl e, s') \<longleftrightarrow>
     m s = (Inl e, s') \<or> (\<exists>x s1. m s = (Inr x, s1) \<and> f x s1 = (Inl e, s'))"
  by (auto simp: bnd_def split: prod.splits sum.splits)

lemma seq_Inr:
  "seq m n s = (Inr y, s') \<longleftrightarrow> (\<exists>x s1. m s = (Inr x, s1) \<and> n s1 = (Inr y, s'))"
  by (simp add: seq_def bnd_Inr)

lemma seq_Inl:
  "seq m n s = (Inl e, s') \<longleftrightarrow>
     m s = (Inl e, s') \<or> (\<exists>x s1. m s = (Inr x, s1) \<and> n s1 = (Inl e, s'))"
  by (simp add: seq_def bnd_Inl)

lemma bnd_of_Inr: "m s = (Inr x, s1) \<Longrightarrow> bnd m f s = f x s1"
  by (simp add: bnd_def)

lemma bnd_of_Inl: "m s = (Inl e, s1) \<Longrightarrow> bnd m f s = (Inl e, s1)"
  by (simp add: bnd_def)

lemma seq_of_Inr: "m s = (Inr x, s1) \<Longrightarrow> seq m n s = n s1"
  by (simp add: seq_def bnd_def)

lemma seq_of_Inl: "m s = (Inl e, s1) \<Longrightarrow> seq m n s = (Inl e, s1)"
  by (simp add: seq_def bnd_def)

lemma try_except_of_Inr: "m s = (Inr x, s1) \<Longrightarrow> try_except m h s = (Inr x, s1)"
  by (simp add: try_except_def)

lemma try_except_of_Inl: "m s = (Inl e, s1) \<Longrightarrow> try_except m h s = h e s1"
  by (simp add: try_except_def)

lemma try_else_of_Inr: "m s = (Inr x, s1) \<Longrightarrow> try_else m h k s = k x s1"
  by (simp add: try_else_def)

lemma try_else_of_Inl: "m s = (Inl e, s1) \<Longrightarrow> try_else m h k s = h e s1"
  by (simp add: try_else_def)

lemma ret_apply: "ret x s = (Inr x, s)"
  by (simp add: ret_def)

lemma raise_apply: "raise e s = (Inl e, s)"
  by (simp add: raise_def)

lemma emit_apply: "emit ev s = (Inr (), s\<lparr>trace := trace s @ [ev]\<rparr>)"
  by (simp add: emit_def)

lemma ext_returns: "outcome E c s = None \<Longrightarrow> ext E c s = (Inr (), s\<lparr>trace := trace s @ [Ev c None]\<rparr>)"
  by (simp add: ext_def)

lemma ext_raises:
  "outcome E c s = Some e \<Longrightarrow> ext E c s = (Inl e, s\<lparr>trace := trace s @ [Ev c (Some e)]\<rparr>)"
  by (simp add: ext_def)

lemma save_and_reraise_exception_never_returns:
  "save_and_reraise_exception e block s \<noteq> (Inr x, s')"
  by (auto simp: save_and_reraise_exception_def bnd_def raise_def split: prod.splits sum.splits)

section \<open>Composition of the relations\<close>

named_theorems steps_intros

lemma stepsD: "steps R m \<Longrightarrow> m s = (r, s') \<Longrightarrow> R s s'"
  unfolding steps_def by (metis snd_conv)

lemma steps_ret [steps_intros]: "reflp R \<Longrightarrow> steps R (ret x)"
  by (simp add: steps_def ret_def reflpD)

lemma steps_raise [steps_intros]: "reflp R \<Longrightarrow> steps R (raise e)"
  by (simp add: steps_def raise_def reflpD)

lemma steps_emit [steps_intros]:
  "(\<And>s. R s (s\<lparr>trace := trace s @ [ev]\<rparr>)) \<Longrightarrow> steps R (emit ev)"
  by (simp add: steps_def emit_def)

lemma steps_ext [steps_intros]:
  "(\<And>s r. R s (s\<lparr>trace := trace s @ [Ev c r]\<rparr>)) \<Longrightarrow> steps R (ext E c)"
  by (auto simp: steps_def ext_def split: option.splits)

lemma steps_ask [steps_intros]:
  "(\<And>s r. R s (s\<lparr>trace := trace s @ [Ev c r]\<rparr>)) \<Longrightarrow> steps R (ask c q)"
  by (auto simp: steps_def ask_def split: sum.splits)

lemma steps_try_else [steps_intros]:
  assumes "transp R" and "steps R m" and "\<And>e. steps R (h e)" and "\<And>x. steps R (k x)"
  shows "steps R (try_else m h k)"
  unfolding steps_def
proof
  fix s
  obtain r s1 where m: "m s = (r, s1)" by (cases "m s")
  have a: "R s s1" using stepsD[OF assms(2) m] .
  show "R s (snd (try_else m h k s))"
  proof (cases r)
    case (Inl e)
    have "R s1 (snd (h e s1))" using assms(3) by (simp add: steps_def)
    then show ?thesis using a m Inl assms(1) by (auto simp: try_else_def dest: transpD)
  next
    case (Inr x)
    have "R s1 (snd (k x s1))" using assms(4) by (simp add: steps_def)
    then show ?thesis using a m Inr assms(1) by (auto simp: try_else_def dest: transpD)
  qed
qed

lemma steps_try_except [steps_intros]:
  assumes "transp R" and "steps R m" and "\<And>e. steps R (h e)"
  shows "steps R (try_except m h)"
  unfolding steps_def
proof
  fix s
  obtain r s1 where m: "m s = (r, s1)" by (cases "m s")
  have a: "R s s1" using stepsD[OF assms(2) m] .
  show "R s (snd (try_except m h s))"
  proof (cases r)
    case (Inl e)
    have "R s1 (snd (h e s1))" using assms(3) by (simp add: steps_def)
    then show ?thesis using a m Inl assms(1) by (auto simp: try_except_def dest: transpD)
  next
    case (Inr x)
    then show ?thesis using a m by (simp add: try_except_def)
  qed
qed

lemma steps_bnd [steps_intros]:
  assumes "transp R" and "steps R m" and "\<And>x. steps R (f x)"
  shows "steps R (bnd m f)"
  unfolding steps_def
proof
  fix s
  obtain r s1 where m: "m s = (r, s1)" by (cases "m s")
  have a: "R s s1" using stepsD[OF assms(2) m] .
  show "R s (snd (bnd m f s))"
  proof (cases r)
    case (Inl e)
    then show ?thesis using a m by (simp add: bnd_def)
  next
    case (Inr x)
    have "R s1 (snd (f x s1))" using assms(3) by (simp add: steps_def)
    then show ?thesis using a m Inr assms(1) by (auto simp: bnd_def dest: transpD)
  qed
qed

lemma steps_seq [steps_intros]:
  "transp R \<Longrightarrow> steps R m \<Longrightarrow> steps R n \<Longrightarrow> steps R (seq m n)"
  unfolding seq_def by (rule steps_bnd)

lemma steps_save_and_reraise_exception [steps_intros]:
  "reflp R \<Longrightarrow> transp R \<Longrightarrow> steps R block \<Longrightarrow> steps R (save_and_reraise_exception e block)"
  unfolding save_and_reraise_exception_def by (intro steps_bnd steps_raise)

lemma steps_if [steps_intros]:
  "(b \<Longrightarrow> steps R m) \<Longrightarrow> (\<not> b \<Longrightarrow> steps R n) \<Longrightarrow> steps R (if b then m else n)"
  by simp

lemma steps_case_option [steps_intros]:
  "(x = None \<Longrightarrow> steps R a) \<Longrightarrow> (\<And>y. x = Some y \<Longrightarrow> steps R (f y))
   \<Longrightarrow> steps R (case x of None \<Rightarrow> a | Some y \<Rightarrow> f y)"
  by (cases x) auto

lemma steps_case_list [steps_intros]:
  "(x = [] \<Longrightarrow> steps R a) \<Longrightarrow> (\<And>y ys. x = y # ys \<Longrightarrow> steps R (f y ys))
   \<Longrightarrow> steps R (case x of [] \<Rightarrow> a | y # ys \<Rightarrow> f y ys)"
  by (cases x) auto

lemma steps_case_prod [steps_intros]:
  "(\<And>a b. x = (a, b) \<Longrightarrow> steps R (f a b)) \<Longrightarrow> steps R (case x of (a, b) \<Rightarrow> f a b)"
  by (cases x) auto

lemma steps_let [steps_intros]: "steps R (f x) \<Longrightarrow> steps R (let y = x in f y)"
  by simp

lemma steps_instance_get_by_uuid [steps_intros]:
  "reflp R \<Longrightarrow> steps R (instance_get_by_uuid u)"
  by (auto simp: steps_def instance_get_by_uuid_def reflpD split: option.splits)

lemma steps_instance_get_all_by_host [steps_intros]:
  "reflp R \<Longrightarrow> steps R (instance_get_all_by_host h)"
  by (auto simp: steps_def instance_get_all_by_host_def reflpD)

lemma steps_instance_update [steps_intros]:
  assumes "reflp R"
      and "\<And>s. R s (s\<lparr>db := map (\<lambda>j. if uuid j = u then apply_upds us j else j) (db s),
                       trace := trace s @ [Wrote u us]\<rparr>)"
  shows "steps R (instance_update u us ex)"
  using assms by (auto simp: steps_def instance_update_def reflpD split: option.splits)

lemma steps_instance_destroy [steps_intros]:
  assumes "reflp R"
      and "\<And>s. R s (s\<lparr>db := filter (\<lambda>j. uuid j \<noteq> u) (db s), trace := trace s @ [Destroyed u]\<rparr>)"
  shows "steps R (instance_destroy u)"
  using assms by (auto simp: steps_def instance_destroy_def reflpD split: option.splits)

lemma steps_p_get_resource_tracker [steps_intros]:
  assumes "reflp R" and "transp R"
      and "\<And>s r. R s (s\<lparr>trace := trace s @ [Ev driver_get_available_nodes_call r]\<rparr>)"
      and "\<And>s. R s (s\<lparr>resource_tracker_dict := n # resource_tracker_dict s\<rparr>)"
  shows "steps R (p_get_resource_tracker E n)"
proof -
  have a: "steps R (bnd (ask driver_get_available_nodes_call (driver_get_available_nodes E)) (\<lambda>nodes.
            if n \<notin> set nodes then raise NovaException
            else (\<lambda>s'. (Inr n, s'\<lparr>resource_tracker_dict := n # resource_tracker_dict s'\<rparr>))))"
    using assms by (intro steps_bnd steps_ask steps_if steps_raise) (simp_all add: steps_def)
  show ?thesis
    unfolding steps_def
  proof
    fix s
    show "R s (snd (p_get_resource_tracker E n s))"
      using a[unfolded steps_def, rule_format, of s] assms(1)
      by (auto simp: p_get_resource_tracker_def reflpD)
  qed
qed

section \<open>The relations are preorders\<close>

lemma reflp_grows [simp, steps_intros]: "reflp (grows P)"
  by (rule reflpI) (simp add: grows_def)

lemma transp_grows [simp, steps_intros]: "transp (grows P)"
proof (rule transpI)
  fix a b c assume "grows P a b" "grows P b c"
  then obtain t1 t2 where "trace b = trace a @ t1" "\<forall>e\<in>set t1. P e"
    "trace c = trace b @ t2" "\<forall>e\<in>set t2. P e" unfolding grows_def by blast
  then have "trace c = trace a @ (t1 @ t2) \<and> (\<forall>e\<in>set (t1 @ t2). P e)" by auto
  then show "grows P a c" unfolding grows_def by blast
qed

lemma grows_append [simp]: "grows P s (s\<lparr>trace := trace s @ [ev]\<rparr>) \<longleftrightarrow> P ev"
  by (auto simp: grows_def)

lemma grows_rtd [simp]: "grows P s (s\<lparr>resource_tracker_dict := x\<rparr>)"
  by (simp add: grows_def)

lemma grows_db_append [simp]: "grows P s (s\<lparr>db := d, trace := trace s @ [ev]\<rparr>) \<longleftrightarrow> P ev"
  by (auto simp: grows_def)

lemma grows_new_events:
  "grows P s s' \<Longrightarrow> trace s' = trace s @ new_events s s' \<and> (\<forall>e \<in> set (new_events s s'). P e)"
  by (auto simp: grows_def new_events_def)

lemma grows_weaken: "grows P s s' \<Longrightarrow> (\<And>e. P e \<Longrightarrow> Q e) \<Longrightarrow> grows Q s s'"
  by (auto simp: grows_def)

lemma new_events_trans:
  "grows P s s1 \<Longrightarrow> grows Q s1 s2 \<Longrightarrow> new_events s s2 = new_events s s1 @ new_events s1 s2"
  by (auto simp: grows_def new_events_def)

lemma new_events_self [simp]: "new_events s s = []"
  by (simp add: new_events_def)

lemma reflp_no_new_records [simp, steps_intros]: "reflp no_new_records"
  by (rule reflpI) (simp add: no_new_records_def)

lemma transp_no_new_records [simp, steps_intros]: "transp no_new_records"
  by (rule transpI) (auto simp: no_new_records_def)

lemma uuid_apply_upds [simp]: "uuid (apply_upds us i) = uuid i"
proof (induction us arbitrary: i)
  case Nil
  then show ?case by (simp add: apply_upds_def)
next
  case (Cons u us)
  have "uuid (apply_upd u i) = uuid i" by (cases u) simp_all
  then show ?case using Cons[of "apply_upd u i"] by (simp add: apply_upds_def)
qed

lemma no_new_records_simps [simp]:
  "no_new_records s (s\<lparr>trace := t\<rparr>)"
  "no_new_records s (s\<lparr>resource_tracker_dict := x\<rparr>)"
  "no_new_records s (s\<lparr>db := map (\<lambda>j. if uuid j = u then apply_upds us j else j) (db s), trace := t\<rparr>)"
  "no_new_records s (s\<lparr>db := filter p (db s), trace := t\<rparr>)"
  by (auto simp: no_new_records_def image_iff)

lemma reflp_same_db [simp, steps_intros]: "reflp same_db"
  by (rule reflpI) (simp add: same_db_def)

lemma transp_same_db [simp, steps_intros]: "transp same_db"
  by (rule transpI) (simp add: same_db_def)

lemma same_db_simps [simp]:
  "same_db s (s\<lparr>trace := t\<rparr>)"
  "same_db s (s\<lparr>resource_tracker_dict := x\<rparr>)"
  by (simp_all add: same_db_def)

section \<open>The update of an instance record\<close>

lemma instance_update_applied:
  assumes "find (\<lambda>i. uuid i = u) (db s) = Some i"
      and "ex = None \<or> (\<exists>accepted. ex = Some accepted \<and> task_state i \<in> set accepted)"
  shows "instance_update u us ex s =
           (Inr (apply_upds us i),
            s\<lparr>db := map (\<lambda>j. if uuid j = u then apply_upds us j else j) (db s),
              trace := trace s @ [Wrote u us]\<rparr>)"
  using assms by (auto simp: instance_update_def)

lemma instance_update_missing:
  "find (\<lambda>i. uuid i = u) (db s) = None \<Longrightarrow> instance_update u us ex s = (Inl InstanceNotFound, s)"
  by (simp add: instance_update_def)

lemma instance_update_unexpected:
  "find (\<lambda>i. uuid i = u) (db s) = Some i \<Longrightarrow> task_state i \<notin> set accepted \<Longrightarrow>
   instance_update u us (Some accepted) s = (Inl (UnexpectedTaskStateError (task_state i)), s)"
  by (simp add: instance_update_def)

lemma p_instance_update_alt:
  "p_instance_update E u us ex = bnd (instance_update u us ex) (update_usage_of E)"
  by (simp add: p_instance_update_def update_usage_of_def[abs_def])

lemma steps_update_usage_of:
  assumes "reflp R" and "transp R"
      and "\<And>s r. R s (s\<lparr>trace := trace s @ [Ev driver_get_available_nodes_call r]\<rparr>)"
      and "\<And>s n. R s (s\<lparr>resource_tracker_dict := n # resource_tracker_dict s\<rparr>)"
      and "\<And>s n x r. R s (s\<lparr>trace := trace s @ [Ev (rt_update_usage n x) r]\<rparr>)"
  shows "steps R (update_usage_of E i)"
  unfolding update_usage_of_def by (intro steps_intros assms)

lemma steps_p_instance_update [steps_intros]:
  assumes "reflp R" and "transp R"
      and "\<And>s r. R s (s\<lparr>trace := trace s @ [Ev driver_get_available_nodes_call r]\<rparr>)"
      and "\<And>s n. R s (s\<lparr>resource_tracker_dict := n # resource_tracker_dict s\<rparr>)"
      and "\<And>s n x r. R s (s\<lparr>trace := trace s @ [Ev (rt_update_usage n x) r]\<rparr>)"
      and "\<And>s. R s (s\<lparr>db := map (\<lambda>j. if uuid j = u then apply_upds us j else j) (db s),
                       trace := trace s @ [Wrote u us]\<rparr>)"
  shows "steps R (p_instance_update E u us ex)"
  unfolding p_instance_update_alt
  by (intro steps_bnd steps_instance_update steps_update_usage_of assms)

lemma update_usage_of_db: "update_usage_of E i s = (r, s') \<Longrightarrow> db s' = db s"
proof -
  have "steps same_db (update_usage_of E i)"
    by (rule steps_update_usage_of) simp_all
  then show "update_usage_of E i s = (r, s') \<Longrightarrow> db s' = db s"
    by (auto dest: stepsD simp: same_db_def)
qed

lemma update_usage_of_result:
  "update_usage_of E i s = (Inr x, s') \<Longrightarrow> x = i"
  by (auto simp: update_usage_of_def bnd_Inr seq_Inr ret_def split: if_splits)

text \<open>The store after \<^verbatim>\<open>_instance_update\<close>, whether its bookkeeping raises or not.\<close>

lemma p_instance_update_db:
  assumes "find (\<lambda>i. uuid i = u) (db s) = Some i"
      and "ex = None \<or> (\<exists>accepted. ex = Some accepted \<and> task_state i \<in> set accepted)"
      and "p_instance_update E u us ex s = (r, s')"
  shows "db s' = map (\<lambda>j. if uuid j = u then apply_upds us j else j) (db s)"
    and "r = Inr x \<Longrightarrow> x = apply_upds us i"
  using assms(3) update_usage_of_db update_usage_of_result
  unfolding p_instance_update_alt
    bnd_of_Inr[where m="instance_update u us ex" and s=s, OF instance_update_applied[OF assms(1,2)]]
  by fastforce+

lemma p_instance_update_missing:
  "find (\<lambda>i. uuid i = u) (db s) = None \<Longrightarrow>
   p_instance_update E u us ex s = (Inl InstanceNotFound, s)"
  unfolding p_instance_update_alt
  by (simp add: bnd_of_Inl[where m="instance_update u us ex" and s=s, OF instance_update_missing])

lemma p_instance_update_unexpected:
  "find (\<lambda>i. uuid i = u) (db s) = Some i \<Longrightarrow> task_state i \<notin> set accepted \<Longrightarrow>
   p_instance_update E u us (Some accepted) s = (Inl (UnexpectedTaskStateError (task_state i)), s)"
  unfolding p_instance_update_alt
  by (simp add: bnd_of_Inl[where m="instance_update u us (Some accepted)" and s=s,
                           OF instance_update_unexpected])

section \<open>Unfolding the model on concrete worlds\<close>

lemmas monad_defs = ret_def raise_def bnd_def seq_def try_except_def try_else_def emit_def
  ext_def ask_def save_and_reraise_exception_def

lemmas store_defs = instance_get_by_uuid_def instance_update_def instance_destroy_def
  instance_get_all_by_host_def apply_upds_def

lemmas helper_defs = p_get_resource_tracker_def p_instance_update_def
  p_set_instance_error_state_def wrap_instance_fault_def reverts_task_state_def
  wrap_instance_event_def wrap_exception_def p_notify_about_instance_usage_def
  p_get_power_state_def p_get_instance_nw_info_def p_deallocate_network_def has_volume_def
  volume_of_def p_get_volume_bdms_def p_get_instance_volume_bdms_def p_quota_commit_def
  p_quota_rollback_def p_error_out_instance_on_exception_def is_NotFound_def
  is_older_than_def

lemmas world_defs = calm_def vm1_def world0_def new_events_def

section \<open>Relations that hold across the steps of a workflow\<close>

lemma tolerantD:
  assumes "tolerant R W D"
  shows "reflp R" and "transp R"
    and "\<And>s c r. R s (s\<lparr>trace := trace s @ [Ev c r]\<rparr>)"
    and "\<And>s l m x. R s (s\<lparr>trace := trace s @ [LOG l m x]\<rparr>)"
    and "\<And>s n. R s (s\<lparr>resource_tracker_dict := n # resource_tracker_dict s\<rparr>)"
    and "\<And>s u us. W u us \<Longrightarrow>
            R s (s\<lparr>db := map (\<lambda>j. if uuid j = u then apply_upds us j else j) (db s),
                  trace := trace s @ [Wrote u us]\<rparr>)"
    and "\<And>s u. D u \<Longrightarrow>
            R s (s\<lparr>db := filter (\<lambda>j. uuid j \<noteq> u) (db s), trace := trace s @ [Destroyed u]\<rparr>)"
  using assms unfolding tolerant_def by blast+

lemma tol_p_instance_update:
  assumes "tolerant R W D" and "W u us"
  shows "steps R (p_instance_update E u us ex)"
  by (intro steps_p_instance_update tolerantD[OF assms(1)] assms(2))

lemma tol_p_set_instance_error_state:
  assumes "tolerant R W D" and "W u [Set_vm_state vm_states_ERROR]"
  shows "steps R (p_set_instance_error_state E u)"
  unfolding p_set_instance_error_state_def
  by (intro steps_intros tol_p_instance_update[OF assms] tolerantD[OF assms(1)])

lemma tol_wrap_instance_fault:
  assumes "tolerant R W D" and "steps R f"
  shows "steps R (wrap_instance_fault E i f)"
  unfolding wrap_instance_fault_def
  by (intro steps_intros tolerantD[OF assms(1)] assms(2))

lemma tol_wrap_instance_event:
  assumes "tolerant R W D" and "steps R f"
  shows "steps R (wrap_instance_event E i n f)"
  unfolding wrap_instance_event_def
  by (intro steps_intros tolerantD[OF assms(1)] assms(2))

lemma tol_wrap_exception:
  assumes "tolerant R W D" and "steps R f"
  shows "steps R (wrap_exception E f)"
  unfolding wrap_exception_def
  by (intro steps_intros tolerantD[OF assms(1)] assms(2))

lemma tol_reverts_task_state:
  assumes "tolerant R W D" and "steps R f" and "\<And>i. k = Some i \<Longrightarrow> W (uuid i) [Set_task_state None]"
  shows "steps R (reverts_task_state E k f)"
  unfolding reverts_task_state_def
  by (intro steps_intros tol_p_instance_update[OF assms(1)] tolerantD[OF assms(1)] assms(2,3))

lemma tol_shutdown_volumes:
  assumes "tolerant R W D"
  shows "steps R (shutdown_volumes E i vs)"
proof (induction vs)
  case Nil
  show ?case by (simp add: steps_ret tolerantD[OF assms])
next
  case (Cons b vs)
  show ?case unfolding shutdown_volumes.simps
    by (intro steps_intros tolerantD[OF assms] Cons)
qed

lemma tol_p_cleanup_volumes:
  assumes "tolerant R W D"
  shows "steps R (p_cleanup_volumes E u bs)"
proof (induction bs)
  case Nil
  show ?case by (simp add: steps_ret tolerantD[OF assms])
next
  case (Cons b bs)
  show ?case unfolding p_cleanup_volumes.simps
    by (intro steps_intros tolerantD[OF assms] Cons)
qed

lemma tol_p_shutdown_instance:
  assumes "tolerant R W D" and "W (uuid i) [Set_vm_state vm_states_ERROR]"
  shows "steps R (p_shutdown_instance E i bdms)"
  unfolding p_shutdown_instance_def p_notify_about_instance_usage_def p_get_instance_nw_info_def
    p_deallocate_network_def
  by (intro steps_intros tol_p_set_instance_error_state[OF assms] tol_shutdown_volumes[OF assms(1)]
            tolerantD[OF assms(1)])

lemma tol_p_get_instance_volume_bdms:
  assumes "tolerant R W D"
  shows "steps R (p_get_instance_volume_bdms E i)"
  unfolding p_get_instance_volume_bdms_def
  by (intro steps_intros tolerantD[OF assms(1)])

text \<open>The steps of \<^verbatim>\<open>_delete_instance\<close> after the record has been removed.\<close>

lemma tol_p_delete_instance:
  assumes "tolerant R W D" and "W (uuid i) [Set_vm_state vm_states_ERROR]"
      and "W (uuid i) [Set_vm_state vm_states_DELETED, Set_task_state None,
                       Set_terminated_at (utcnow E)]"
      and "\<And>u. D u"
  shows "steps R (p_delete_instance E i bdms)"
  unfolding p_delete_instance_def p_notify_about_instance_usage_def
  by (intro steps_intros tol_p_shutdown_instance[OF assms(1,2)] tol_p_cleanup_volumes[OF assms(1)]
            tol_p_instance_update[OF assms(1)] tolerantD[OF assms(1)] assms(3,4))

lemma tol_terminate_instance:
  assumes "tolerant R W D" and "W (uuid i) [Set_vm_state vm_states_ERROR]"
      and "W (uuid i) [Set_vm_state vm_states_DELETED, Set_task_state None,
                       Set_terminated_at (utcnow E)]"
      and "\<And>u. D u"
  shows "steps R (terminate_instance E i bdms)"
  unfolding terminate_instance_def
  by (intro tol_wrap_exception[OF assms(1)] tol_wrap_instance_event[OF assms(1)]
            tol_wrap_instance_fault[OF assms(1)] steps_intros
            tol_p_get_instance_volume_bdms[OF assms(1)] tol_p_delete_instance[OF assms]
            tol_p_set_instance_error_state[OF assms(1,2)] tolerantD[OF assms(1)])

lemma tol_reclaim_each:
  assumes "tolerant R (\<lambda>u us. True) (\<lambda>u. True)"
  shows "steps R (reclaim_each E is)"
proof (induction "is")
  case Nil
  show ?case by (simp add: steps_ret tolerantD[OF assms])
next
  case (Cons i "is")
  show ?case unfolding reclaim_each.simps
    by (intro steps_intros tol_p_delete_instance[OF assms] tolerantD[OF assms] Cons) simp_all
qed

lemma tolerant_no_new_records: "tolerant no_new_records (\<lambda>u us. True) (\<lambda>u. True)"
  unfolding tolerant_def by simp

section \<open>Properties of the backup rotation\<close>

lemma rotate_out_ok:
  assumes ok: "\<forall>i w. outcome E (image_service_delete i) w = None"
  shows "n \<le> length images \<Longrightarrow>
     rotate_out E n images s =
       (Inr (), s\<lparr>trace := trace s @
           map (\<lambda>i. Ev (image_service_delete (image_id i)) None)
               (rev (drop (length images - n) images))\<rparr>)"
proof (induction n arbitrary: images s)
  case 0
  then show ?case by (simp add: ret_def)
next
  case (Suc n)
  then have ne: "images \<noteq> []" by auto
  have len: "n \<le> length (butlast images)" using Suc.prems by simp
  have d: "drop (length images - Suc n) images = drop (length (butlast images) - n) (butlast images) @ [last images]"
  proof -
    have "images = butlast images @ [last images]" using ne by simp
    then have "drop (length images - Suc n) images
               = drop (length (butlast images) - n) (butlast images @ [last images])"
      by (metis diff_Suc_Suc length_append_singleton)
    then show ?thesis by simp
  qed
  show ?case
    using ne ok Suc.IH[OF len] d
    by (simp add: seq_def bnd_def ext_def)
qed

lemma deleted_images_append: "deleted_images (a @ b) = deleted_images a @ deleted_images b"
  by (induction a) (auto split: event.splits call.splits option.splits)

lemma deleted_images_map:
  "deleted_images (map (\<lambda>i. Ev (image_service_delete (image_id i)) None) xs) = map image_id xs"
  by (induction xs) auto

lemma new_events_append: "new_events s (s'\<lparr>trace := trace s @ t\<rparr>) = t"
  by (simp add: new_events_def)

lemma sorted_desc_drop_take:
  "sorted_wrt (\<ge>) (map created_at images) \<Longrightarrow>
   \<forall>d \<in> set (drop k images). \<forall>x \<in> set (take k images). created_at d \<le> created_at x"
proof -
  assume a: "sorted_wrt (\<ge>) (map created_at images)"
  have "images = take k images @ drop k images" by simp
  then have "sorted_wrt (\<ge>) (map created_at (take k images) @ map created_at (drop k images))"
    using a by (metis map_append)
  then show ?thesis by (auto simp: sorted_wrt_append)
qed

text \<open>
  C8. A rotation with a limit \<open>rotation \<ge> 0\<close> over the \<open>N\<close> backups the image
  service lists newest first, when the image service accepts the deletions: the deleted
  images are the last \<open>N - rotation\<close> of the list, taken from its end (oldest first);
  there are exactly \<open>N - rotation\<close> of them if \<open>N > rotation\<close> and none if
  \<open>N \<le> rotation\<close>; on a list sorted newest first no deleted image is newer than a kept
  one.
\<close>

theorem rotate_backups_deletes_oldest:
  assumes rot: "0 \<le> rotation"
      and det: "image_service_detail E backup_type (uuid instance) s = Inr images"
      and ok: "\<forall>i w. outcome E (image_service_delete i) w = None"
      and run: "p_rotate_backups E instance backup_type rotation s = (r, s')"
  shows "r = Inr ()
       \<and> deleted_images (new_events s s') = map image_id (rev (drop (nat rotation) images))
       \<and> (int (length images) > rotation \<longrightarrow>
            int (length (deleted_images (new_events s s'))) = int (length images) - rotation)
       \<and> (int (length images) \<le> rotation \<longrightarrow> deleted_images (new_events s s') = [])
       \<and> (sorted_wrt (\<ge>) (map created_at images) \<longrightarrow>
            (\<forall>d \<in> set (drop (nat rotation) images). \<forall>k \<in> set (take (nat rotation) images).
                created_at d \<le> created_at k))"
proof -
  let ?s0 = "s\<lparr>trace := trace s @ [Ev (image_service_detail_call backup_type (uuid instance)) None]\<rparr>"
  let ?n = "nat (int (length images) - rotation)"
  have n: "?n \<le> length images" using rot by simp
  have dr: "length images - ?n = nat rotation \<or> length images \<le> nat rotation" using rot by linarith
  have body: "p_rotate_backups E instance backup_type rotation s =
        (if int (length images) > rotation then rotate_out E ?n images ?s0 else (Inr (), ?s0))"
    using det
    by (simp add: p_rotate_backups_def wrap_instance_fault_def try_except_def bnd_def ask_def
                  ret_def Let_def rotate_out_ok[OF ok n])
  show ?thesis
  proof (cases "int (length images) > rotation")
    case True
    then have eq: "length images - ?n = nat rotation" using rot by linarith
    have "(r, s') = (Inr (), ?s0\<lparr>trace := trace ?s0 @
           map (\<lambda>i. Ev (image_service_delete (image_id i)) None) (rev (drop (nat rotation) images))\<rparr>)"
      using run body True rotate_out_ok[OF ok n, of ?s0] eq by simp
    then have r: "r = Inr ()" and
      t: "new_events s s' = Ev (image_service_detail_call backup_type (uuid instance)) None #
           map (\<lambda>i. Ev (image_service_delete (image_id i)) None) (rev (drop (nat rotation) images))"
      by (simp_all add: new_events_def)
    show ?thesis using r t True rot sorted_desc_drop_take[of images "nat rotation"]
      by (simp add: deleted_images_map)
  next
    case False
    then have "(r, s') = (Inr (), ?s0)" using run body by simp
    then have r: "r = Inr ()" and
      t: "new_events s s' = [Ev (image_service_detail_call backup_type (uuid instance)) None]"
      by (simp_all add: new_events_def)
    show ?thesis using r t False rot sorted_desc_drop_take[of images "nat rotation"]
      by simp
  qed
qed

theorem rotate_backups_deletes_oldest_witness:
  "deleted_images (new_events (world0 [vm1])
      (snd (p_rotate_backups
              (calm\<lparr>image_service_detail := (\<lambda>b u s. Inr
                 [\<lparr>image_id = ''c'', created_at = 30\<rparr>,
                  \<lparr>image_id = ''b'', created_at = 20\<rparr>,
                  \<lparr>image_id = ''a'', created_at = 10\<rparr>])\<rparr>)
              vm1 ''daily'' 1 (world0 [vm1]))))
   = [''a'', ''b'']"
proof -
  let ?E = "calm\<lparr>image_service_detail := (\<lambda>b u s. Inr
                 [\<lparr>image_id = ''c'', created_at = 30\<rparr>,
                  \<lparr>image_id = ''b'', created_at = 20\<rparr>,
                  \<lparr>image_id = ''a'', created_at = 10\<rparr>])\<rparr>"
  let ?run = "p_rotate_backups ?E vm1 ''daily'' 1 (world0 [vm1])"
  have h1: "(0::int) \<le> 1" by simp
  have h2: "image_service_detail ?E ''daily'' (uuid vm1) (world0 [vm1]) = Inr
                 [\<lparr>image_id = ''c'', created_at = 30\<rparr>,
                  \<lparr>image_id = ''b'', created_at = 20\<rparr>,
                  \<lparr>image_id = ''a'', created_at = 10\<rparr>]" by simp
  have h3: "\<forall>i w. outcome ?E (image_service_delete i) w = None" by (simp add: calm_def)
  have h4: "?run = (fst ?run, snd ?run)" by simp
  show ?thesis using rotate_backups_deletes_oldest[OF h1 h2 h3 h4] by simp
qed

section \<open>Properties of the power-state reconciliation\<close>

lemma compute_stop_calls_append [simp]:
  "compute_stop_calls (a @ b) = compute_stop_calls a @ compute_stop_calls b"
  by (induction a) (auto split: event.splits call.splits)

lemma compute_stop_calls_none: "\<forall>e \<in> set t. not_stop e \<Longrightarrow> compute_stop_calls t = []"
proof (induction t)
  case Nil
  then show ?case by simp
next
  case (Cons a t)
  have "compute_stop_calls (a # t) = compute_stop_calls [a] @ compute_stop_calls t"
    using compute_stop_calls_append[of "[a]" t] by simp
  then show ?case using Cons by (simp add: not_stop_def)
qed

lemma p_instance_update_no_stop:
  assumes "p_instance_update E u us ex s = (r, s1)"
  shows "trace s1 = trace s @ new_events s s1 \<and> compute_stop_calls (new_events s s1) = []"
proof -
  have "steps (grows not_stop) (p_instance_update E u us ex)"
    by (intro steps_intros) (simp_all add: not_stop_def)
  then have "grows not_stop s s1" using assms by (rule stepsD)
  then show ?thesis using grows_new_events compute_stop_calls_none by blast
qed

lemma new_events_after:
  "trace s1 = trace s @ t \<Longrightarrow> new_events s (s1\<lparr>trace := trace s1 @ t2\<rparr>) = t @ t2"
  by (simp add: new_events_def)

lemma new_events_emit [simp]: "new_events s (s\<lparr>trace := trace s @ t2\<rparr>) = t2"
  by (simp add: new_events_def)

text \<open>
  C2. For an instance that a reconciliation pass processes (its record is on this host
  with no task pending, and the pass returns): with \<open>vm_state\<close> ACTIVE and an observed
  power state SHUTDOWN, CRASHED or SUSPENDED the stop workflow is invoked exactly once;
  with ACTIVE and PAUSED or NOSTATE it is not invoked; with STOPPED and an observed power
  state other than NOSTATE, SHUTDOWN and CRASHED it is invoked once; with BUILDING,
  RESCUED, RESIZED, SUSPENDED, PAUSED or ERROR it is not invoked, whatever is observed.
  The only change to the store is the write-through of a differing power state.
\<close>

theorem sync_instance_power_state_decision:
  assumes found: "find (\<lambda>i. uuid i = uuid db_instance) (db s) = Some u"
      and hst: "host u = self_host E"
      and idle: "task_state u = None"
      and run: "p_sync_instance_power_state E db_instance vm_power_state s = (Inr (), s')"
  shows "(vm_state u = vm_states_ACTIVE
            \<and> vm_power_state \<in> {power_state_SHUTDOWN, power_state_CRASHED, power_state_SUSPENDED}
          \<longrightarrow> compute_stop_calls (new_events s s') = [uuid db_instance])
       \<and> (vm_state u = vm_states_ACTIVE
            \<and> vm_power_state \<in> {power_state_PAUSED, power_state_NOSTATE}
          \<longrightarrow> compute_stop_calls (new_events s s') = [])
       \<and> (vm_state u = vm_states_STOPPED
            \<and> vm_power_state \<notin> {power_state_NOSTATE, power_state_SHUTDOWN, power_state_CRASHED}
          \<longrightarrow> compute_stop_calls (new_events s s') = [uuid db_instance])
       \<and> (vm_state u \<in> {vm_states_BUILDING, vm_states_RESCUED, vm_states_RESIZED,
                          vm_states_SUSPENDED, vm_states_PAUSED, vm_states_ERROR}
          \<longrightarrow> compute_stop_calls (new_events s s') = [])
       \<and> db s' = (if vm_power_state \<noteq> power_state u
                  then map (\<lambda>j. if uuid j = uuid db_instance
                                 then apply_upds [Set_power_state vm_power_state] j else j) (db s)
                  else db s)"
proof -
  have get: "instance_get_by_uuid (uuid db_instance) s = (Inr u, s)"
    using found by (simp add: instance_get_by_uuid_def)
  show ?thesis
  proof (cases "vm_power_state \<noteq> power_state u")
    case False
    show ?thesis
      using run False hst idle
      unfolding p_sync_instance_power_state_def bnd_of_Inr[where m="instance_get_by_uuid (uuid db_instance)" and s=s, OF get]
      by (auto simp: seq_def bnd_def ret_def emit_def ext_def try_except_def
               split: if_splits option.splits)
  next
    case True
    let ?W = "p_instance_update E (uuid db_instance) [Set_power_state vm_power_state] None"
    from run True hst idle obtain x s1 where w: "?W s = (Inr x, s1)"
      unfolding p_sync_instance_power_state_def bnd_of_Inr[where m="instance_get_by_uuid (uuid db_instance)" and s=s, OF get]
      by (auto simp: seq_Inr)
    have tr: "trace s1 = trace s @ new_events s s1" "compute_stop_calls (new_events s s1) = []"
      using p_instance_update_no_stop[OF w] by simp_all
    have dbs: "db s1 = map (\<lambda>j. if uuid j = uuid db_instance
                                 then apply_upds [Set_power_state vm_power_state] j else j) (db s)"
      using p_instance_update_db(1)[OF found _ w] by simp
    have ws: "seq ?W (ret ()) s = (Inr (), s1)" using w by (simp add: seq_def bnd_def ret_def)
    show ?thesis
      using run True hst idle tr(2) dbs
      unfolding p_sync_instance_power_state_def bnd_of_Inr[where m="instance_get_by_uuid (uuid db_instance)" and s=s, OF get]
      apply (simp add: seq_of_Inr[where m="seq ?W (ret ())" and s=s, OF ws])
      apply (auto simp: seq_def bnd_def ret_def emit_def ext_def try_except_def
                     new_events_after[OF tr(1)]
               split: if_splits option.splits)
      done
  qed
qed

theorem sync_instance_power_state_decision_witness:
  "compute_stop_calls (new_events (world0 [vm1])
     (snd (p_sync_instance_power_state calm vm1 power_state_SHUTDOWN (world0 [vm1]))))
   = [''u1'']"
proof -
  let ?run = "p_sync_instance_power_state calm vm1 power_state_SHUTDOWN (world0 [vm1])"
  have h1: "find (\<lambda>i. uuid i = uuid vm1) (db (world0 [vm1])) = Some vm1"
    by (simp add: world_defs)
  have h2: "host vm1 = self_host calm" by (simp add: world_defs)
  have h3: "task_state vm1 = None" by (simp add: world_defs)
  have h4: "?run = (Inr (), snd ?run)"
    by (simp add: p_sync_instance_power_state_def monad_defs store_defs helper_defs world_defs)
  have h5: "vm_state vm1 = vm_states_ACTIVE" "uuid vm1 = ''u1''" by (simp_all add: world_defs)
  show ?thesis using sync_instance_power_state_decision[OF h1 h2 h3 h4] h5 by simp
qed

section \<open>Properties of the reclamation sweep\<close>

lemma p_instance_update_result_uuid:
  assumes "p_instance_update E u us ex s = (Inr x, s')"
  shows "uuid x = u"
proof (cases "find (\<lambda>i. uuid i = u) (db s)")
  case None
  then show ?thesis using assms p_instance_update_missing by fastforce
next
  case (Some i)
  then have ui: "uuid i = u" by (auto dest: find_Some_iff[THEN iffD1])
  show ?thesis
  proof (cases "ex = None \<or> (\<exists>accepted. ex = Some accepted \<and> task_state i \<in> set accepted)")
    case True
    from p_instance_update_db(2)[OF Some True assms] ui show ?thesis by simp
  next
    case False
    then obtain accepted where "ex = Some accepted" "task_state i \<notin> set accepted" by auto
    then show ?thesis using assms p_instance_update_unexpected[OF Some] by fastforce
  qed
qed

lemma instance_destroy_gone:
  "instance_destroy u s = (Inr x, s') \<Longrightarrow> u \<notin> uuid ` set (db s')"
  by (auto simp: instance_destroy_def split: option.splits)

lemma no_new_recordsD: "no_new_records s s' \<Longrightarrow> u \<notin> uuid ` set (db s) \<Longrightarrow> u \<notin> uuid ` set (db s')"
  by (auto simp: no_new_records_def)

lemma p_delete_instance_gone:
  assumes "p_delete_instance E i bdms s = (Inr (), s')"
  shows "uuid i \<notin> uuid ` set (db s')"
proof -
  from assms obtain s4 i' s5 s6 where
        u: "p_instance_update E (uuid i)
              [Set_vm_state vm_states_DELETED, Set_task_state None, Set_terminated_at (utcnow E)]
              None s4 = (Inr i', s5)"
    and d: "instance_destroy (uuid i') s5 = (Inr (), s6)"
    and t: "seq (ext E (conductor_block_device_mapping_destroy (uuid i)))
            (seq (p_notify_about_instance_usage E i' ''delete.end'')
                 (if CONF_vnc_enabled E \<or> CONF_spice_enabled E
                  then ext E (consoleauth_delete_tokens_for_instance (uuid i'))
                  else ret ())) s6 = (Inr (), s')"
    unfolding p_delete_instance_def by (auto simp: seq_Inr bnd_Inr)
  have "uuid i' = uuid i" using p_instance_update_result_uuid[OF u] .
  then have g: "uuid i \<notin> uuid ` set (db s6)" using instance_destroy_gone[OF d] by simp
  have "steps no_new_records (seq (ext E (conductor_block_device_mapping_destroy (uuid i)))
            (seq (p_notify_about_instance_usage E i' ''delete.end'')
                 (if CONF_vnc_enabled E \<or> CONF_spice_enabled E
                  then ext E (consoleauth_delete_tokens_for_instance (uuid i'))
                  else ret ())))"
    unfolding p_notify_about_instance_usage_def
    by (intro steps_intros tolerantD[OF tolerant_no_new_records])
  from stepsD[OF this t] g show ?thesis by (rule no_new_recordsD)
qed

lemma reclaim_each_gone:
  assumes "reclaim_each E is s = (Inr (), s')"
  shows "\<forall>i \<in> set is. reclaimable E i \<longrightarrow> uuid i \<notin> uuid ` set (db s')"
  using assms
proof (induction "is" arbitrary: s)
  case Nil
  then show ?case by simp
next
  case (Cons i "is")
  from Cons.prems obtain s1 where
       hd: "(if reclaimable E i
            then bnd (ask (block_device_mapping_get_all_by_instance_call (uuid i))
                          (block_device_mapping_get_all_by_instance E (uuid i)))
                   (\<lambda>bdms. seq (emit (LOG ''info'' ''Reclaiming deleted instance'' None))
                                (p_delete_instance E i bdms))
            else ret ()) s = (Inr (), s1)"
   and tl: "reclaim_each E is s1 = (Inr (), s')"
    by (auto simp: seq_Inr Let_def reclaimable_def)
  have rest: "\<forall>j \<in> set is. reclaimable E j \<longrightarrow> uuid j \<notin> uuid ` set (db s')"
    using Cons.IH[OF tl] .
  have nn: "no_new_records s1 s'"
    using stepsD[OF tol_reclaim_each[OF tolerant_no_new_records] tl] .
  have "reclaimable E i \<longrightarrow> uuid i \<notin> uuid ` set (db s')"
  proof
    assume r: "reclaimable E i"
    with hd obtain bdms s0 where "p_delete_instance E i bdms s0 = (Inr (), s1)"
      by (auto simp: bnd_Inr seq_Inr)
    from p_delete_instance_gone[OF this] nn show "uuid i \<notin> uuid ` set (db s')"
      by (rule no_new_recordsD[rotated])
  qed
  with rest show ?case by simp
qed



section \<open>Properties of the task-state decorator\<close>

lemma find_map_update:
  "find (\<lambda>i. uuid i = u) (map (\<lambda>j. if uuid j = u then apply_upds us j else j) xs)
   = map_option (apply_upds us) (find (\<lambda>i. uuid i = u) xs)"
  by (induction xs) auto

lemma p_instance_update_trace:
  assumes "find (\<lambda>i. uuid i = u) (db s) = Some i"
      and "ex = None \<or> (\<exists>accepted. ex = Some accepted \<and> task_state i \<in> set accepted)"
      and "p_instance_update E u us ex s = (r, s')"
  shows "\<exists>t. trace s' = trace s @ Wrote u us # t"
proof -
  let ?s2 = "s\<lparr>db := map (\<lambda>j. if uuid j = u then apply_upds us j else j) (db s),
               trace := trace s @ [Wrote u us]\<rparr>"
  have a: "update_usage_of E (apply_upds us i) ?s2 = (r, s')"
    using assms(3)
    unfolding p_instance_update_alt
      bnd_of_Inr[where m="instance_update u us ex" and s=s, OF instance_update_applied[OF assms(1,2)]] .
  have "steps (grows (\<lambda>_. True)) (update_usage_of E (apply_upds us i))"
    by (rule steps_update_usage_of) simp_all
  from stepsD[OF this a] show ?thesis by (auto simp: grows_def)
qed

lemma task_state_apply_upds_None [simp]: "task_state (apply_upds [Set_task_state x] i) = x"
  by (simp add: apply_upds_def)

lemma tolerant_grows_task_write:
  "tolerant (grows (task_write_of_delete E))
            (\<lambda>u us. sets_task_state us \<longrightarrow>
                us = [Set_vm_state vm_states_DELETED, Set_task_state None,
                      Set_terminated_at (utcnow E)])
            (\<lambda>u. True)"
  unfolding tolerant_def by (simp add: task_write_of_delete_def)




section \<open>Properties of the error-out wrapper\<close>

lemma bookkeeping_update_usage_of:
  assumes "bookkeeping_returns E"
  shows "\<exists>s'. update_usage_of E i s = (Inr i, s')"
proof -
  from assms obtain ns where ns: "\<And>w. driver_get_available_nodes E w = Inr ns"
    and ok: "\<And>n x w. outcome E (rt_update_usage n x) w = None"
    unfolding bookkeeping_returns_def by blast
  show ?thesis
    by (simp add: update_usage_of_def p_get_resource_tracker_def bnd_def ask_def ns ok seq_def
                  ext_def ret_def raise_def)
qed

lemma bookkeeping_p_instance_update:
  assumes "bookkeeping_returns E"
      and "find (\<lambda>i. uuid i = u) (db s) = Some i"
      and "ex = None \<or> (\<exists>accepted. ex = Some accepted \<and> task_state i \<in> set accepted)"
  shows "\<exists>t. p_instance_update E u us ex s
           = (Inr (apply_upds us i),
              snd (p_instance_update E u us ex s))
         \<and> db (snd (p_instance_update E u us ex s))
             = map (\<lambda>j. if uuid j = u then apply_upds us j else j) (db s)
         \<and> trace (snd (p_instance_update E u us ex s)) = trace s @ Wrote u us # t"
proof -
  obtain r s' where run: "p_instance_update E u us ex s = (r, s')"
    by (cases "p_instance_update E u us ex s")
  let ?s2 = "s\<lparr>db := map (\<lambda>j. if uuid j = u then apply_upds us j else j) (db s),
               trace := trace s @ [Wrote u us]\<rparr>"
  have a: "update_usage_of E (apply_upds us i) ?s2 = (r, s')"
    using run
    unfolding p_instance_update_alt
      bnd_of_Inr[where m="instance_update u us ex" and s=s, OF instance_update_applied[OF assms(2,3)]] .
  then have r: "r = Inr (apply_upds us i)"
    using bookkeeping_update_usage_of[OF assms(1), of "apply_upds us i" ?s2] by auto
  show ?thesis
    using run r p_instance_update_db(1)[OF assms(2,3) run] p_instance_update_trace[OF assms(2,3) run]
    by auto
qed

lemma vm_state_apply_upds_ERROR [simp]:
  "vm_state (apply_upds [Set_vm_state v] i) = v"
  by (simp add: apply_upds_def)

text \<open>\<^verbatim>\<open>_set_instance_error_state\<close> on a record that exists.\<close>

lemma p_set_instance_error_state_found:
  assumes "bookkeeping_returns E" and "find (\<lambda>i. uuid i = u) (db s) = Some i"
  shows "\<exists>t s'. p_set_instance_error_state E u s = (Inr (), s')
          \<and> trace s' = trace s @ Wrote u [Set_vm_state vm_states_ERROR] # t
          \<and> map_option vm_state (find (\<lambda>i. uuid i = u) (db s')) = Some vm_states_ERROR"
proof -
  let ?U = "p_instance_update E u [Set_vm_state vm_states_ERROR] None"
  from bookkeeping_p_instance_update[OF assms, of None "[Set_vm_state vm_states_ERROR]"]
  obtain t where u: "?U s = (Inr (apply_upds [Set_vm_state vm_states_ERROR] i), snd (?U s))"
    and d: "db (snd (?U s)) = map (\<lambda>j. if uuid j = u
                 then apply_upds [Set_vm_state vm_states_ERROR] j else j) (db s)"
    and t: "trace (snd (?U s)) = trace s @ Wrote u [Set_vm_state vm_states_ERROR] # t"
    by auto
  have "p_set_instance_error_state E u s = (Inr (), snd (?U s))"
    unfolding p_set_instance_error_state_def
    by (simp add: try_except_def seq_of_Inr[where m="?U" and s=s, OF u] ret_def)
  then show ?thesis using d t assms(2) by (simp add: find_map_update)
qed

text \<open>The store after \<^verbatim>\<open>_set_instance_error_state\<close>, whatever it returns or raises.\<close>

lemma p_set_instance_error_state_db:
  assumes "find (\<lambda>i. uuid i = u) (db s) = Some i"
      and "p_set_instance_error_state E u s = (r, s')"
  shows "map_option vm_state (find (\<lambda>i. uuid i = u) (db s')) = Some vm_states_ERROR"
proof -
  let ?U = "p_instance_update E u [Set_vm_state vm_states_ERROR] None"
  obtain r1 s1 where u: "?U s = (r1, s1)" by (cases "?U s")
  have d: "db s1 = map (\<lambda>j. if uuid j = u
                 then apply_upds [Set_vm_state vm_states_ERROR] j else j) (db s)"
    using p_instance_update_db(1)[OF assms(1) _ u] by simp
  have "s' = s1"
    using assms(2) u unfolding p_set_instance_error_state_def
    by (cases r1) (auto simp: try_except_def seq_def bnd_def ret_def raise_def split: if_splits)
  then show ?thesis using d assms(1) by (simp add: find_map_update)
qed

lemma p_set_instance_error_state_missing:
  "find (\<lambda>i. uuid i = u) (db s) = None \<Longrightarrow> p_set_instance_error_state E u s = (Inr (), s)"
  unfolding p_set_instance_error_state_def
  by (simp add: try_except_def seq_def bnd_of_Inl[where m="p_instance_update E u [Set_vm_state vm_states_ERROR] None" and s=s, OF p_instance_update_missing] ret_def)

text \<open>
  C7. A block run under \<^verbatim>\<open>_error_out_instance_on_exception\<close> that raises any
  exception, for an instance whose record exists, when the quota rollback and the
  bookkeeping of the update return: the pending reservations are rolled back first, then
  the store sets \<open>vm_state\<close> to ERROR, and the same exception is raised again. The
  witness is the block of \<^verbatim>\<open>resize_instance\<close> failing in the disk migration.
\<close>

theorem error_out_rolls_back_and_sets_error:
  assumes body: "body s = (Inl e, s1)"
      and found: "find (\<lambda>i. uuid i = u) (db s1) = Some i"
      and rb: "reservations \<noteq> [] \<longrightarrow> outcome E (conductor_quota_rollback reservations) s1 = None"
      and bk: "bookkeeping_returns E"
  shows "fst (p_error_out_instance_on_exception E u reservations body s) = Inl e
       \<and> map_option vm_state
            (find (\<lambda>i. uuid i = u)
               (db (snd (p_error_out_instance_on_exception E u reservations body s))))
           = Some vm_states_ERROR
       \<and> (reservations \<noteq> [] \<longrightarrow>
            take 3 (new_events s1 (snd (p_error_out_instance_on_exception E u reservations body s)))
            = [Ev (conductor_quota_rollback reservations) None,
               LOG ''error'' ''Setting instance vm_state to ERROR'' None,
               Wrote u [Set_vm_state vm_states_ERROR]])
       \<and> (reservations = [] \<longrightarrow>
            take 2 (new_events s1 (snd (p_error_out_instance_on_exception E u reservations body s)))
            = [LOG ''error'' ''Setting instance vm_state to ERROR'' None,
               Wrote u [Set_vm_state vm_states_ERROR]])"
proof -
  let ?pre = "if reservations \<noteq> [] then [Ev (conductor_quota_rollback reservations) None] else []"
  let ?s2 = "s1\<lparr>trace := trace s1 @ ?pre\<rparr>"
  let ?s3 = "?s2\<lparr>trace := trace ?s2 @ [LOG ''error'' ''Setting instance vm_state to ERROR'' None]\<rparr>"
  have q: "p_quota_rollback E reservations s1 = (Inr (), ?s2)"
    using rb by (auto simp: p_quota_rollback_def ext_def ret_def)
  have f3: "find (\<lambda>i. uuid i = u) (db ?s3) = Some i" using found by simp
  from p_set_instance_error_state_found[OF bk f3]
  obtain t s' where se: "p_set_instance_error_state E u ?s3 = (Inr (), s')"
    and tr: "trace s' = trace ?s3 @ Wrote u [Set_vm_state vm_states_ERROR] # t"
    and vm: "map_option vm_state (find (\<lambda>i. uuid i = u) (db s')) = Some vm_states_ERROR"
    by blast
  have run: "p_error_out_instance_on_exception E u reservations body s = (Inl e, s')"
    unfolding p_error_out_instance_on_exception_def
      try_except_of_Inl[where m=body and s=s, OF body]
      seq_of_Inr[where m="p_quota_rollback E reservations" and s=s1, OF q]
    using se
    by (simp add: save_and_reraise_exception_def seq_def bnd_def emit_def raise_def)
  show ?thesis using run vm tr by (auto simp: new_events_def)
qed

theorem error_out_rolls_back_and_sets_error_witness:
  "fst (p_error_out_instance_on_exception disk_migration_fails ''u1'' [''r1'']
          (resize_instance_block disk_migration_fails vm_resize_prep migration1 True)
          (world0 [vm_resize_prep])) = Inl (OtherException ''disk'')
   \<and> map_option vm_state
        (find (\<lambda>i. uuid i = ''u1'')
           (db (snd (p_error_out_instance_on_exception disk_migration_fails ''u1'' [''r1'']
                       (resize_instance_block disk_migration_fails vm_resize_prep migration1 True)
                       (world0 [vm_resize_prep])))))
       = Some vm_states_ERROR"
proof -
  let ?E = disk_migration_fails
  let ?body = "resize_instance_block ?E vm_resize_prep migration1 True"
  let ?s = "world0 [vm_resize_prep]"
  have h1: "?body ?s = (Inl (OtherException ''disk''), snd (?body ?s))"
    by (simp add: resize_instance_block_def disk_migration_fails_def vm_resize_prep_def
                  migration1_def monad_defs store_defs helper_defs world_defs)
  have h2: "find (\<lambda>i. uuid i = ''u1'') (db (snd (?body ?s)))
            = Some (vm_resize_prep\<lparr>task_state := Some task_states_RESIZE_MIGRATING\<rparr>)"
    by (simp add: resize_instance_block_def disk_migration_fails_def vm_resize_prep_def
                  migration1_def monad_defs store_defs helper_defs world_defs)
  have h3: "[''r1''] \<noteq> [] \<longrightarrow> outcome ?E (conductor_quota_rollback [''r1'']) (snd (?body ?s)) = None"
    by (simp add: disk_migration_fails_def calm_def)
  have h4: "bookkeeping_returns ?E"
    by (auto simp: bookkeeping_returns_def disk_migration_fails_def calm_def)
  show ?thesis
    using error_out_rolls_back_and_sets_error[where body="?body" and s="?s", OF h1 h2 h3 h4]
    by simp
qed

section \<open>Properties of the delete workflow on a record that is gone\<close>

lemma volume_delete_calls_append [simp]:
  "volume_delete_calls (a @ b) = volume_delete_calls a @ volume_delete_calls b"
  by (induction a) (auto split: event.splits call.splits)

lemma ext_calm:
  "\<forall>c w. outcome E c w = None \<Longrightarrow> ext E c = (\<lambda>s. (Inr (), s\<lparr>trace := trace s @ [Ev c None]\<rparr>))"
  by (simp add: ext_def fun_eq_iff)

lemma shutdown_volumes_calm:
  assumes "\<forall>c w. outcome E c w = None"
  shows "\<exists>t. shutdown_volumes E i vs s = (Inr (), s\<lparr>trace := trace s @ t\<rparr>)
             \<and> volume_delete_calls t = [] \<and> (\<forall>e \<in> set t. \<exists>c. e = Ev c None)"
proof (induction vs arbitrary: s)
  case Nil
  show ?case by (rule exI[of _ "[]"]) (simp add: ret_def)
next
  case (Cons b vs)
  let ?h = "[Ev (volume_api_get (volume_of b)) None, Ev (driver_get_volume_connector (uuid i)) None,
             Ev (volume_api_terminate_connection (volume_of b)) None,
             Ev (volume_api_detach (volume_of b)) None]"
  from Cons[of "s\<lparr>trace := trace s @ ?h\<rparr>"] obtain t where
    t: "shutdown_volumes E i vs (s\<lparr>trace := trace s @ ?h\<rparr>) = (Inr (), s\<lparr>trace := (trace s @ ?h) @ t\<rparr>)"
       "volume_delete_calls t = []" "\<forall>e \<in> set t. \<exists>c. e = Ev c None"
    by auto
  have "shutdown_volumes E i (b # vs) s = (Inr (), s\<lparr>trace := trace s @ (?h @ t)\<rparr>)"
    using t(1) by (simp add: ext_calm[OF assms] seq_def bnd_def try_except_def)
  moreover have "volume_delete_calls (?h @ t) = []" using t(2) by simp
  moreover have "\<forall>e \<in> set (?h @ t). \<exists>c. e = Ev c None" using t(3) by auto
  ultimately show ?case by blast
qed

lemma p_cleanup_volumes_calm:
  assumes "\<forall>c w. outcome E c w = None"
  shows "\<exists>t. p_cleanup_volumes E u bs s = (Inr (), s\<lparr>trace := trace s @ t\<rparr>)
             \<and> volume_delete_calls t = map volume_of (to_delete bs)
             \<and> (\<forall>e \<in> set t. \<exists>c. e = Ev c None)"
proof (induction bs arbitrary: s)
  case Nil
  show ?case by (rule exI[of _ "[]"]) (simp add: ret_def to_delete_def)
next
  case (Cons b bs)
  let ?h = "if has_volume b \<and> delete_on_termination b
            then [Ev (volume_api_get (volume_of b)) None, Ev (volume_api_delete (volume_of b)) None]
            else []"
  from Cons[of "s\<lparr>trace := trace s @ ?h\<rparr>"] obtain t where
    t: "p_cleanup_volumes E u bs (s\<lparr>trace := trace s @ ?h\<rparr>) = (Inr (), s\<lparr>trace := (trace s @ ?h) @ t\<rparr>)"
       "volume_delete_calls t = map volume_of (to_delete bs)" "\<forall>e \<in> set t. \<exists>c. e = Ev c None"
    by auto
  have "p_cleanup_volumes E u (b # bs) s = (Inr (), s\<lparr>trace := trace s @ (?h @ t)\<rparr>)"
    using t(1)
    by (cases "has_volume b \<and> delete_on_termination b")
       (auto simp: ext_calm[OF assms] seq_def bnd_def ret_def)
  moreover have "volume_delete_calls (?h @ t) = map volume_of (to_delete (b # bs))"
    using t(2) by (simp add: to_delete_def)
  moreover have "\<forall>e \<in> set (?h @ t). \<exists>c. e = Ev c None" using t(3) by auto
  ultimately show ?case by blast
qed

text \<open>\<^verbatim>\<open>_delete_instance\<close> on a record that is gone, when every collaborator returns:
  the shutdown and the volume cleanup run, then the update finds no record.\<close>

lemma p_delete_instance_gone_calm:
  assumes calm: "\<forall>c w. outcome E c w = None"
      and gone: "find (\<lambda>j. uuid j = uuid i) (db s) = None"
  shows "\<exists>t. p_delete_instance E i bdms s = (Inl InstanceNotFound, s\<lparr>trace := trace s @ t\<rparr>)
             \<and> volume_delete_calls t = map volume_of (to_delete bdms)
             \<and> (\<forall>e \<in> set t. \<exists>c. e = Ev c None)"
proof -
  let ?a = "[Ev (conductor_instance_info_cache_delete (uuid i)) None,
             Ev (notify_about_instance_usage (uuid i) ''delete.start'') None,
             Ev (notify_about_instance_usage (uuid i) ''shutdown.start'') None,
             Ev (network_api_get_instance_nw_info (uuid i)) None,
             Ev (network_api_deallocate_for_instance (uuid i)) None,
             Ev (driver_destroy (uuid i)) None]"
  let ?s1 = "s\<lparr>trace := trace s @ ?a\<rparr>"
  obtain t1 where t1: "shutdown_volumes E i (p_get_volume_bdms bdms) ?s1
                        = (Inr (), ?s1\<lparr>trace := trace ?s1 @ t1\<rparr>)"
      "volume_delete_calls t1 = []" "\<forall>e \<in> set t1. \<exists>c. e = Ev c None"
    using shutdown_volumes_calm[OF calm] by blast
  let ?b = "[Ev (notify_about_instance_usage (uuid i) ''shutdown.end'') None]"
  let ?s2 = "s\<lparr>trace := trace s @ ?a @ t1 @ ?b\<rparr>"
  obtain t2 where t2: "p_cleanup_volumes E (uuid i) bdms ?s2 = (Inr (), ?s2\<lparr>trace := trace ?s2 @ t2\<rparr>)"
      "volume_delete_calls t2 = map volume_of (to_delete bdms)" "\<forall>e \<in> set t2. \<exists>c. e = Ev c None"
    using p_cleanup_volumes_calm[OF calm] by blast
  let ?s3 = "s\<lparr>trace := trace s @ ?a @ t1 @ ?b @ t2\<rparr>"
  have g3: "find (\<lambda>j. uuid j = uuid i) (db ?s3) = None" using gone by simp
  have "p_delete_instance E i bdms s = (Inl InstanceNotFound, ?s3)"
    using t1(1) t2(1) p_instance_update_missing[OF g3]
    by (simp add: p_delete_instance_def p_shutdown_instance_def p_notify_about_instance_usage_def
                  p_get_instance_nw_info_def p_deallocate_network_def ext_calm[OF calm]
                  seq_def bnd_def try_except_def)
  moreover have "volume_delete_calls (?a @ t1 @ ?b @ t2) = map volume_of (to_delete bdms)"
    using t1(2) t2(2) by simp
  moreover have "\<forall>e \<in> set (?a @ t1 @ ?b @ t2). \<exists>c. e = Ev c None"
    using t1(3) t2(3) by auto
  ultimately show ?thesis by blast
qed

text \<open>
  C9 (amended). \<^verbatim>\<open>terminate_instance\<close> on an instance whose record is gone, when
  every collaborator returns: it returns without raising, the missing record is logged,
  the store is as before, and the volume cleanup has run over the mappings at hand: the
  deletion of the volume is requested for each mapping with a volume and
  \<open>delete_on_termination\<close>, and for none when there is no such mapping.
\<close>

theorem terminate_instance_on_missing_record:
  assumes calm: "\<forall>c w. outcome E c w = None"
      and stored: "\<forall>w. block_device_mapping_get_all_by_instance E (uuid instance) w = Inr stored"
      and gone: "find (\<lambda>j. uuid j = uuid instance) (db s) = None"
  shows "fst (terminate_instance E instance bdms s) = Inr ()
       \<and> db (snd (terminate_instance E instance bdms s)) = db s
       \<and> volume_delete_calls (new_events s (snd (terminate_instance E instance bdms s)))
           = map volume_of (to_delete (effective_bdms bdms stored))
       \<and> LOG ''warn'' ''InstanceNotFound'' None
           \<in> set (new_events s (snd (terminate_instance E instance bdms s)))"
proof -
  let ?enter = "Ev (EventReporter_enter ''compute_terminate_instance'' (uuid instance)) None"
  let ?get = "Ev (block_device_mapping_get_all_by_instance_call (uuid instance)) None"
  let ?tail = "[LOG ''warn'' ''InstanceNotFound'' None,
                Ev (EventReporter_exit ''compute_terminate_instance'' (uuid instance)) None]"
  let ?eff = "effective_bdms bdms stored"
  have "\<exists>t. terminate_instance E instance bdms s = (Inr (), s\<lparr>trace := trace s @ t @ ?tail\<rparr>)
            \<and> volume_delete_calls t = map volume_of (to_delete ?eff)"
  proof (cases "bdms = None \<or> bdms = Some []")
    case True
    let ?s1 = "s\<lparr>trace := trace s @ [?enter, ?get]\<rparr>"
    have eff: "?eff = p_get_volume_bdms stored" using True by (auto simp: effective_bdms_def)
    have g1: "find (\<lambda>j. uuid j = uuid instance) (db ?s1) = None" using gone by simp
    obtain t where t: "p_delete_instance E instance (p_get_volume_bdms stored) ?s1
                         = (Inl InstanceNotFound, ?s1\<lparr>trace := trace ?s1 @ t\<rparr>)"
        "volume_delete_calls t = map volume_of (to_delete (p_get_volume_bdms stored))"
      using p_delete_instance_gone_calm[OF calm g1] by blast
    have "terminate_instance E instance bdms s
            = (Inr (), s\<lparr>trace := trace s @ ([?enter, ?get] @ t) @ ?tail\<rparr>)"
      using True t(1) stored
      by (auto simp: terminate_instance_def wrap_exception_def wrap_instance_event_def
                  wrap_instance_fault_def p_get_instance_volume_bdms_def
                  ext_calm[OF calm] ask_def seq_def bnd_def try_except_def try_else_def ret_def
                  emit_def)
    moreover have "volume_delete_calls ([?enter, ?get] @ t) = map volume_of (to_delete ?eff)"
      using t(2) eff by simp
    ultimately show ?thesis by blast
  next
    case False
    then obtain a where a: "bdms = Some a" "a \<noteq> []" by (cases bdms) auto
    let ?s1 = "s\<lparr>trace := trace s @ [?enter]\<rparr>"
    have eff: "?eff = a" using a by (simp add: effective_bdms_def)
    have g1: "find (\<lambda>j. uuid j = uuid instance) (db ?s1) = None" using gone by simp
    obtain t where t: "p_delete_instance E instance a ?s1
                         = (Inl InstanceNotFound, ?s1\<lparr>trace := trace ?s1 @ t\<rparr>)"
        "volume_delete_calls t = map volume_of (to_delete a)"
      using p_delete_instance_gone_calm[OF calm g1] by blast
    have "terminate_instance E instance bdms s
            = (Inr (), s\<lparr>trace := trace s @ ([?enter] @ t) @ ?tail\<rparr>)"
      using a t(1)
      by (simp add: terminate_instance_def wrap_exception_def wrap_instance_event_def
                  wrap_instance_fault_def
                  ext_calm[OF calm] seq_def bnd_def try_except_def try_else_def ret_def
                  emit_def)
    moreover have "volume_delete_calls ([?enter] @ t) = map volume_of (to_delete ?eff)"
      using t(2) eff by simp
    ultimately show ?thesis by blast
  qed
  then obtain t where "terminate_instance E instance bdms s
                         = (Inr (), s\<lparr>trace := trace s @ t @ ?tail\<rparr>)"
      and "volume_delete_calls t = map volume_of (to_delete ?eff)" by blast
  then show ?thesis by (simp add: new_events_def)
qed

theorem terminate_instance_on_missing_record_witness:
  "fst (terminate_instance calm vm1 None (world0 [])) = Inr ()
   \<and> volume_delete_calls (new_events (world0 []) (snd (terminate_instance calm vm1 None (world0 []))))
       = []"
proof -
  have h1: "\<forall>c w. outcome calm c w = None" by (simp add: calm_def)
  have h2: "\<forall>w. block_device_mapping_get_all_by_instance calm (uuid vm1) w = Inr []"
    by (simp add: calm_def)
  have h3: "find (\<lambda>j. uuid j = uuid vm1) (db (world0 [])) = None" by (simp add: world0_def)
  show ?thesis
    using terminate_instance_on_missing_record[OF h1 h2 h3, of None]
    by (simp add: effective_bdms_def to_delete_def p_get_volume_bdms_def)
qed

text \<open>
  C9 as stated fails: on a record that is gone, with a mapping of the caller that has a
  volume to delete on termination, the volume cleanup runs and requests the deletion of
  the volume before the missing record is noticed.
\<close>

theorem terminate_instance_repeats_volume_cleanup_counterexample:
  "fst (terminate_instance calm vm1 (Some [bdm1]) (world0 [])) = Inr ()
   \<and> volume_delete_calls (trace (snd (terminate_instance calm vm1 (Some [bdm1]) (world0 []))))
       = [''v1'']"
  by (simp add: terminate_instance_def p_delete_instance_def p_shutdown_instance_def bdm1_def
                monad_defs store_defs helper_defs world_defs)

section \<open>Properties of the reschedule\<close>

lemma scheduler_calls_append [simp]:
  "scheduler_calls (a @ b) = scheduler_calls a @ scheduler_calls b"
  by (induction a) (auto split: event.splits call.splits)

lemma scheduler_calls_none: "\<forall>e \<in> set t. not_scheduler e \<Longrightarrow> scheduler_calls t = []"
proof (induction t)
  case Nil
  then show ?case by simp
next
  case (Cons a t)
  have "scheduler_calls (a # t) = scheduler_calls [a] @ scheduler_calls t"
    using scheduler_calls_append[of "[a]" t] by simp
  then show ?case using Cons by (simp add: not_scheduler_def)
qed

lemma p_instance_update_no_scheduler:
  assumes "p_instance_update E u us ex s = (r, s1)"
  shows "trace s1 = trace s @ new_events s s1 \<and> scheduler_calls (new_events s s1) = []"
proof -
  have "steps (grows not_scheduler) (p_instance_update E u us ex)"
    by (intro steps_intros) (simp_all add: not_scheduler_def)
  then have "grows not_scheduler s s1" using assms by (rule stepsD)
  then show ?thesis using grows_new_events scheduler_calls_none by blast
qed




end
